theory Spec2Isabelle
  imports Complex_Main "HOL-Library.Log_Nat"
begin

section \<open>Python values\<close>

text \<open>
  Trade events, REST responses and the remote model's answers are JSON-shaped Python
  values. A dict is an association list in insertion order (keys are distinct, lookup
  takes the first binding).
\<close>

datatype pyfloat = Finite rat | PosInf | NegInf | NaN

datatype pyval =
    PNone
  | PBool bool
  | PInt int
  | PFloat pyfloat
  | PStr string
  | PList "pyval list"
  | PDict "(string \<times> pyval) list"

datatype pyexn = AttributeError | TypeError | KeyError | ZeroDivisionError

text \<open>
  The string parsers of the Python runtime that the code calls (\<open>int(str)\<close>,
  \<open>float(str)\<close>, \<open>json.loads\<close>) are parameters; \<open>None\<close> is the exception they
  raise on malformed text.
\<close>

record pylib =
  str_to_int :: "string \<Rightarrow> int option"
  str_to_float :: "string \<Rightarrow> pyfloat option"
  json_loads :: "string \<Rightarrow> pyval option"

subsection \<open>Floats: IEEE 754 binary64 over the rationals\<close>

definition pow2 :: "int \<Rightarrow> rat" where
  "pow2 k = (if 0 \<le> k then 2 ^ nat k else 1 / 2 ^ nat (- k))"

definition floor_log2 :: "rat \<Rightarrow> int" where
  \<comment> \<open>for \<open>a > 0\<close>: the exponent \<open>e\<close> with \<open>2^e \<le> a < 2^(e+1)\<close>\<close>
  "floor_log2 a = (if 1 \<le> a then bitlen \<lfloor>a\<rfloor> - 1 else - bitlen (\<lceil>1 / a\<rceil> - 1))"

definition round_half_even :: "rat \<Rightarrow> int" where
  "round_half_even x =
     (let f = \<lfloor>x\<rfloor>; d = x - of_int f
      in if d < 1 / 2 then f else if 1 / 2 < d then f + 1 else if even f then f else f + 1)"

definition round_double :: "rat \<Rightarrow> pyfloat" where
  \<comment> \<open>nearest double, ties to even: 53-bit significand, subnormals below \<open>2^-1022\<close>,
      overflow to infinity; the sign of zero is not kept\<close>
  "round_double x =
     (if x = 0 then Finite 0
      else let a = \<bar>x\<bar>;
               q = max (floor_log2 a - 52) (- 1074);
               v = of_int (round_half_even (a / pow2 q)) * pow2 q
           in if 2 ^ 1024 \<le> v then (if 0 < x then PosInf else NegInf)
              else Finite (if 0 < x then v else - v))"

fun flt :: "pyfloat \<Rightarrow> pyfloat \<Rightarrow> bool" where
  "flt NaN _ = False"
| "flt _ NaN = False"
| "flt (Finite a) (Finite b) = (a < b)"
| "flt NegInf NegInf = False"
| "flt NegInf _ = True"
| "flt _ NegInf = False"
| "flt PosInf _ = False"
| "flt _ PosInf = True"

definition fle :: "pyfloat \<Rightarrow> pyfloat \<Rightarrow> bool" where
  "fle a b = (flt a b \<or> (a \<noteq> NaN \<and> a = b))"

fun fdiv :: "pyfloat \<Rightarrow> pyfloat \<Rightarrow> pyexn + pyfloat" where
  "fdiv a (Finite b) =
     (if b = 0 then Inl ZeroDivisionError
      else Inr (case a of
                  Finite x \<Rightarrow> round_double (x / b)
                | PosInf \<Rightarrow> (if 0 < b then PosInf else NegInf)
                | NegInf \<Rightarrow> (if 0 < b then NegInf else PosInf)
                | NaN \<Rightarrow> NaN))"
| "fdiv a NaN = Inr NaN"
| "fdiv (Finite x) b = Inr (Finite 0)"
| "fdiv a b = Inr NaN"

subsection \<open>Truthiness, \<open>or\<close>, \<open>dict.get\<close>, \<open>int()\<close>, \<open>float()\<close>\<close>

fun truthy :: "pyval \<Rightarrow> bool" where
  "truthy PNone = False"
| "truthy (PBool b) = b"
| "truthy (PInt i) = (i \<noteq> 0)"
| "truthy (PFloat f) = (f \<noteq> Finite 0)"
| "truthy (PStr s) = (s \<noteq> [])"
| "truthy (PList xs) = (xs \<noteq> [])"
| "truthy (PDict kvs) = (kvs \<noteq> [])"

fun is_dict :: "pyval \<Rightarrow> bool" where
  "is_dict (PDict kvs) = True"
| "is_dict v = False"

fun dict_get :: "pyval \<Rightarrow> string \<Rightarrow> pyval \<Rightarrow> pyexn + pyval" where
  \<comment> \<open>\<open>d.get(k, default)\<close>; only a dict has the method\<close>
  "dict_get (PDict kvs) k dflt = Inr (case map_of kvs k of None \<Rightarrow> dflt | Some v \<Rightarrow> v)"
| "dict_get v k dflt = Inl AttributeError"

definition truncate :: "rat \<Rightarrow> int" where
  "truncate r = (if 0 \<le> r then \<lfloor>r\<rfloor> else \<lceil>r\<rceil>)"

fun py_int :: "pylib \<Rightarrow> pyval \<Rightarrow> int option" where
  \<comment> \<open>\<open>int(v)\<close>; \<open>None\<close> when it raises (TypeError, ValueError, OverflowError)\<close>
  "py_int lib (PInt i) = Some i"
| "py_int lib (PBool b) = Some (if b then 1 else 0)"
| "py_int lib (PFloat (Finite r)) = Some (truncate r)"
| "py_int lib (PFloat f) = None"
| "py_int lib (PStr s) = str_to_int lib s"
| "py_int lib v = None"

fun py_float :: "pylib \<Rightarrow> pyval \<Rightarrow> pyfloat option" where
  \<comment> \<open>\<open>float(v)\<close>; \<open>None\<close> when it raises (TypeError, ValueError, OverflowError)\<close>
  "py_float lib (PFloat f) = Some f"
| "py_float lib (PInt i) =
     (case round_double (of_int i) of Finite r \<Rightarrow> Some (Finite r) | f \<Rightarrow> None)"
| "py_float lib (PBool b) = Some (Finite (if b then 1 else 0))"
| "py_float lib (PStr s) = str_to_float lib s"
| "py_float lib v = None"

definition py_last_n :: "nat \<Rightarrow> 'a list \<Rightarrow> 'a list" where
  \<comment> \<open>the slice \<open>xs[-n:]\<close> for \<open>n > 0\<close>\<close>
  "py_last_n n xs = drop (length xs - n) xs"

section \<open>models/types.py and config.py\<close>

text \<open>Dataclasses carry no run-time validation: a decision's fields hold whatever the
  parsed JSON gave.\<close>

record LLMDecision =
  action :: pyval
  confidence :: pyval
  reason :: pyval
  stop_loss :: pyval
  take_profit :: pyval

record OrderRequest =
  ord_symbol :: string
  ord_side :: string
  ord_type :: string
  ord_quantity :: pyfloat
  ord_price :: "pyfloat option"

record Settings =
  wallex_api_key :: string
  symbol :: string
  use_llm :: bool
  gemini_api_key :: string
  trade_amount_quote :: pyfloat
  dry_run :: bool

section \<open>engine/trading\_engine.py\<close>

record TradingEngine =
  eng_symbol :: string
  quote_amount :: pyfloat

definition fmax0 :: "pyfloat \<Rightarrow> pyfloat" where
  \<comment> \<open>\<open>max(qty, 0.0)\<close>: the first argument unless the second is greater\<close>
  "fmax0 qty = (if flt qty (Finite 0) then Finite 0 else qty)"

fun round6 :: "pyfloat \<Rightarrow> pyfloat" where
  \<comment> \<open>\<open>float(f"{q:.6f}")\<close>: the exact value rounded half-even to 6 decimals, the
      decimal read back as a double; \<open>nan\<close> and \<open>inf\<close> print and read back as themselves\<close>
  "round6 (Finite r) = round_double (of_int (round_half_even (r * 10 ^ 6)) / 10 ^ 6)"
| "round6 f = f"

definition format_quantity :: "pyfloat \<Rightarrow> pyfloat" where
  "format_quantity qty =
     (let q = fmax0 qty;
          q = round6 q
      in if flt q (round_double (1 / 1000000)) then Finite 0 else q)"

definition decide_order :: "TradingEngine \<Rightarrow> pyfloat \<Rightarrow> LLMDecision \<Rightarrow> pyexn + OrderRequest option" where
  "decide_order self px decision =
     (if action decision = PStr ''flat'' then Inr None
      else if fle px (Finite 0) then Inr None
      else let side = (if action decision = PStr ''long'' then ''BUY'' else ''SELL'')
           in case fdiv (quote_amount self) px of
                Inl e \<Rightarrow> Inl e
              | Inr raw_qty \<Rightarrow>
                  let qty = format_quantity raw_qty
                  in if fle qty (Finite 0) then Inr None
                     else Inr (Some \<lparr>ord_symbol = eng_symbol self, ord_side = side,
                                       ord_type = ''MARKET'', ord_quantity = qty,
                                       ord_price = None\<rparr>))"

section \<open>llm/gemini\_client.py\<close>

record LLMInput =
  inp_symbol :: string
  timeframe :: string
  inp_recent_trades :: "pyval list"

text \<open>
  What the three calls at the head of the \<open>try\<close> block give (\<open>requests.post\<close>,
  \<open>raise_for_status\<close>, \<open>resp.json()\<close>): a \<open>requests.RequestException\<close> with its
  message (connection failure, timeout, HTTP error status, body that is not JSON), or the
  decoded JSON body.
\<close>

datatype remote = RequestException string | JsonBody pyval

definition bind_exn :: "pyexn + 'a \<Rightarrow> ('a \<Rightarrow> pyexn + 'b) \<Rightarrow> pyexn + 'b" where
  "bind_exn m f = (case m of Inl e \<Rightarrow> Inl e | Inr x \<Rightarrow> f x)"

fun py_iter :: "pyval \<Rightarrow> pyexn + pyval list" where
  \<comment> \<open>the elements a \<open>for\<close> loop sees: a list's items, a dict's keys, a string's characters\<close>
  "py_iter (PList xs) = Inr xs"
| "py_iter (PStr s) = Inr (map (\<lambda>c. PStr [c]) s)"
| "py_iter (PDict kvs) = Inr (map (\<lambda>kv. PStr (fst kv)) kvs)"
| "py_iter v = Inl TypeError"

fun has_infix :: "string \<Rightarrow> string \<Rightarrow> bool" where
  "has_infix pat [] = (pat = [])"
| "has_infix pat (c # cs) = (take (length pat) (c # cs) = pat \<or> has_infix pat cs)"

fun contains_text :: "pyval \<Rightarrow> pyexn + bool" where
  \<comment> \<open>\<open>"text" in p\<close>\<close>
  "contains_text (PDict kvs) = Inr (map_of kvs ''text'' \<noteq> None)"
| "contains_text (PStr s) = Inr (has_infix ''text'' s)"
| "contains_text (PList xs) = Inr (PStr ''text'' \<in> set xs)"
| "contains_text v = Inl TypeError"

fun getitem_text :: "pyval \<Rightarrow> pyexn + pyval" where
  \<comment> \<open>\<open>p["text"]\<close>\<close>
  "getitem_text (PDict kvs) = (case map_of kvs ''text'' of None \<Rightarrow> Inl KeyError | Some v \<Rightarrow> Inr v)"
| "getitem_text v = Inl TypeError"

fun add_newline :: "pyval \<Rightarrow> pyexn + string" where
  \<comment> \<open>\<open>v + "\n"\<close>\<close>
  "add_newline (PStr t) = Inr (t @ [CHR 0x0A])"
| "add_newline v = Inl TypeError"

fun parts_text :: "pyval list \<Rightarrow> string \<Rightarrow> pyexn + string" where
  "parts_text [] text = Inr text"
| "parts_text (p # ps) text =
     bind_exn (contains_text p) (\<lambda>has.
       if has
       then bind_exn (getitem_text p) (\<lambda>v.
              bind_exn (add_newline v) (\<lambda>line. parts_text ps (text @ line)))
       else parts_text ps text)"

fun candidates_text :: "pyval list \<Rightarrow> string \<Rightarrow> pyexn + string" where
  "candidates_text [] text = Inr text"
| "candidates_text (cand # cands) text =
     bind_exn (dict_get cand ''content'' (PDict [])) (\<lambda>content.
       bind_exn (dict_get content ''parts'' (PList [])) (\<lambda>parts.
         bind_exn (py_iter parts) (\<lambda>ps.
           bind_exn (parts_text ps text) (\<lambda>text'. candidates_text cands text'))))"

definition brace_span :: "string \<Rightarrow> string option" where
  \<comment> \<open>\<open>re.search(r"\{[\s\S]*\}", text)\<close>: from the first \<open>{\<close> to the last \<open>}\<close> after it\<close>
  "brace_span text =
     (let r = rev (dropWhile (\<lambda>c. c \<noteq> CHR ''}'') (rev (dropWhile (\<lambda>c. c \<noteq> CHR ''{'') text)))
      in if r = [] then None else Some r)"

definition mk_decision :: "pyval \<Rightarrow> LLMDecision option" where
  \<comment> \<open>\<open>LLMDecision(**obj)\<close>; \<open>None\<close> is the TypeError for a non-mapping, an unexpected
      keyword or a missing required field\<close>
  "mk_decision obj =
     (case obj of
        PDict kvs \<Rightarrow>
          if list_all (\<lambda>k. k \<in> set [''action'', ''confidence'', ''reason'', ''stop_loss'', ''take_profit''])
               (map fst kvs)
          then (case (map_of kvs ''action'', map_of kvs ''confidence'', map_of kvs ''reason'') of
                  (Some a, Some c, Some r) \<Rightarrow>
                    Some \<lparr>action = a, confidence = c, reason = r,
                          stop_loss = (case map_of kvs ''stop_loss'' of None \<Rightarrow> PNone | Some v \<Rightarrow> v),
                          take_profit = (case map_of kvs ''take_profit'' of None \<Rightarrow> PNone | Some v \<Rightarrow> v)\<rparr>
                | _ \<Rightarrow> None)
          else None
      | _ \<Rightarrow> None)"

definition fallback :: "string \<Rightarrow> LLMDecision" where
  "fallback r = \<lparr>action = PStr ''flat'', confidence = PFloat (Finite 0), reason = PStr r,
                 stop_loss = PNone, take_profit = PNone\<rparr>"

definition response_text :: "pyval \<Rightarrow> pyexn + string" where
  \<comment> \<open>the block "Extract text from candidates"\<close>
  "response_text data =
     bind_exn (dict_get data ''candidates'' (PList [])) (\<lambda>cs.
       bind_exn (py_iter cs) (\<lambda>cands. candidates_text cands []))"

definition parse_decision :: "pylib \<Rightarrow> string \<Rightarrow> LLMDecision" where
  \<comment> \<open>the regex search and the inner \<open>try\<close>, whose \<open>except Exception: pass\<close> falls
      through to the fallback\<close>
  "parse_decision lib text =
     (case brace_span text of
        None \<Rightarrow> fallback ''Could not parse LLM output''
      | Some m \<Rightarrow>
          (case json_loads lib m of
             None \<Rightarrow> fallback ''Could not parse LLM output''
           | Some obj \<Rightarrow>
               (case mk_decision obj of
                  None \<Rightarrow> fallback ''Could not parse LLM output''
                | Some d \<Rightarrow> d)))"

definition analyze :: "pylib \<Rightarrow> remote \<Rightarrow> LLMInput \<Rightarrow> pyexn + LLMDecision" where
  \<comment> \<open>the prompt built from \<open>llm_input\<close> goes to the remote service, whose answer is \<open>resp\<close>\<close>
  "analyze lib resp llm_input =
     (case resp of
        RequestException e \<Rightarrow> Inr (fallback (''LLM error: '' @ e))
      | JsonBody data \<Rightarrow>
          bind_exn (response_text data) (\<lambda>text.
            if text = [] then Inr (fallback ''No text in LLM response'')
            else Inr (parse_decision lib text)))"

text \<open>The shape of a response body that the extraction loop is written for: an object
  whose \<open>candidates\<close>, when present, is a list of objects; each candidate's \<open>content\<close>,
  when present, is an object; its \<open>parts\<close>, when present, is a list of objects; each
  part's \<open>text\<close>, when present, is a string.\<close>

fun part_ok :: "pyval \<Rightarrow> bool" where
  "part_ok (PDict kvs) =
     (case map_of kvs ''text'' of None \<Rightarrow> True | Some (PStr t) \<Rightarrow> True | Some v \<Rightarrow> False)"
| "part_ok v = False"

fun parts_ok :: "pyval \<Rightarrow> bool" where
  "parts_ok (PList ps) = list_all part_ok ps"
| "parts_ok v = False"

fun content_ok :: "pyval \<Rightarrow> bool" where
  "content_ok (PDict kvs) = (case map_of kvs ''parts'' of None \<Rightarrow> True | Some ps \<Rightarrow> parts_ok ps)"
| "content_ok v = False"

fun candidate_ok :: "pyval \<Rightarrow> bool" where
  "candidate_ok (PDict kvs) =
     (case map_of kvs ''content'' of None \<Rightarrow> True | Some c \<Rightarrow> content_ok c)"
| "candidate_ok v = False"

fun candidates_ok :: "pyval \<Rightarrow> bool" where
  "candidates_ok (PList cs) = list_all candidate_ok cs"
| "candidates_ok v = False"

fun expected_shape :: "pyval \<Rightarrow> bool" where
  "expected_shape (PDict kvs) =
     (case map_of kvs ''candidates'' of None \<Rightarrow> True | Some cs \<Rightarrow> candidates_ok cs)"
| "expected_shape v = False"

definition prose_body :: pyval where
  \<comment> \<open>a well-formed answer whose text holds no JSON object\<close>
  "prose_body = PDict [(''candidates'', PList [PDict [(''content'',
       PDict [(''parts'', PList [PDict [(''text'', PStr ''wait and see'')]])])]])]"

definition null_content_body :: pyval where
  \<comment> \<open>\<open>{"candidates": [{"content": null}]}\<close>\<close>
  "null_content_body = PDict [(''candidates'', PList [PDict [(''content'', PNone)]])]"

text \<open>An answer whose text is a JSON object with an action outside long/short/flat, and
  a \<open>json.loads\<close> that decodes this text.\<close>

definition hold_text :: string where
  \<open>hold_text = ''{"action": "hold", "confidence": 0.7, "reason": "unclear"}''\<close>

definition hold_object :: pyval where
  "hold_object = PDict [(''action'', PStr ''hold''), (''confidence'', PFloat (round_double (7 / 10))),
                        (''reason'', PStr ''unclear'')]"

definition hold_lib :: pylib where
  "hold_lib = \<lparr>str_to_int = (\<lambda>s. None), str_to_float = (\<lambda>s. None),
                json_loads = (\<lambda>s. if s = hold_text then Some hold_object else None)\<rparr>"

definition hold_body :: pyval where
  "hold_body = PDict [(''candidates'', PList [PDict [(''content'',
       PDict [(''parts'', PList [PDict [(''text'', PStr hold_text)]])])]])]"

definition btc_engine :: TradingEngine where
  \<comment> \<open>the engine with the default budget of 10 quote units\<close>
  "btc_engine = \<lparr>eng_symbol = ''BTCUSDT'', quote_amount = Finite 10\<rparr>"

definition dust_engine :: TradingEngine where
  \<comment> \<open>the engine with a budget of 0.0000005 quote units\<close>
  "dust_engine = \<lparr>eng_symbol = ''BTCUSDT'', quote_amount = round_double (5 / 10000000)\<rparr>"

definition live_input :: LLMInput where
  "live_input = \<lparr>inp_symbol = ''BTCUSDT'', timeframe = ''live'', inp_recent_trades = []\<rparr>"

section \<open>main.py: the trade handler shared by both transports\<close>

text \<open>The closure variables of \<open>run()\<close> that \<open>handle_trade\<close> rebinds.\<close>

record buffer =
  recent_trades :: "pyval list"
  last_trade_ts :: int
  last_activity :: pyfloat

definition init_buffer :: "pyfloat \<Rightarrow> buffer" where
  "init_buffer t0 = \<lparr>recent_trades = [], last_trade_ts = 0, last_activity = t0\<rparr>"

definition ts_field :: "pyval \<Rightarrow> pyexn + pyval" where
  \<comment> \<open>\<open>d.get("ts") or d.get("T") or d.get("t") or 0\<close>\<close>
  "ts_field d =
     bind_exn (dict_get d ''ts'' PNone) (\<lambda>a. if truthy a then Inr a else
       bind_exn (dict_get d ''T'' PNone) (\<lambda>b. if truthy b then Inr b else
         bind_exn (dict_get d ''t'' PNone) (\<lambda>c. if truthy c then Inr c else Inr (PInt 0))))"

definition extract_ts :: "pylib \<Rightarrow> pyval \<Rightarrow> int" where
  \<comment> \<open>the \<open>try: int(...) except Exception: 0\<close> of \<open>handle_trade\<close> and of \<open>_extract_ts\<close>\<close>
  "extract_ts lib d =
     (case ts_field d of
        Inl e \<Rightarrow> 0
      | Inr v \<Rightarrow> (case py_int lib v of None \<Rightarrow> 0 | Some i \<Rightarrow> i))"

definition price_field :: "pyval \<Rightarrow> pyexn + pyval" where
  \<comment> \<open>\<open>data.get("price") or data.get("p")\<close>\<close>
  "price_field d =
     bind_exn (dict_get d ''price'' PNone) (\<lambda>a. if truthy a then Inr a else dict_get d ''p'' PNone)"

definition extract_price :: "pylib \<Rightarrow> pyval \<Rightarrow> pyexn + pyfloat" where
  "extract_price lib d =
     bind_exn (price_field d) (\<lambda>price_val.
       if price_val \<noteq> PNone
       then (case py_float lib price_val of None \<Rightarrow> Inr (Finite 0) | Some f \<Rightarrow> Inr f)
       else Inr (Finite 0))"

definition llm_configured :: "Settings \<Rightarrow> bool" where
  \<comment> \<open>\<open>llm\<close> is a client, not \<open>None\<close>\<close>
  "llm_configured cfg = (use_llm cfg \<and> gemini_api_key cfg \<noteq> [])"

datatype gate = NoOrder | DryRunSkipped | NoKeySkipped | Submitted OrderRequest

definition execution_gate :: "Settings \<Rightarrow> OrderRequest option \<Rightarrow> gate" where
  "execution_gate cfg order_req =
     (case order_req of
        None \<Rightarrow> NoOrder
      | Some req \<Rightarrow>
          if dry_run cfg then DryRunSkipped
          else if wallex_api_key cfg = [] then NoKeySkipped
          else Submitted req)"

text \<open>
  Which way one call of \<open>handle_trade\<close> went. \<open>Triggered\<close> is the call of
  \<open>llm.analyze\<close> with its input; its second component is the exception that leaves
  \<open>handle_trade\<close>, or the decision and what became of the order.
\<close>

datatype decision_step = NoTrigger | Triggered LLMInput "pyexn + LLMDecision \<times> gate"

datatype outcome = NotADict | Stale | Raised pyexn | Appended decision_step

definition decision_trigger ::
  "pylib \<Rightarrow> Settings \<Rightarrow> remote \<Rightarrow> pyfloat \<Rightarrow> pyval list \<Rightarrow> decision_step" where
  "decision_trigger lib cfg resp px window =
     (let llm_input = \<lparr>inp_symbol = symbol cfg, timeframe = ''live'',
                        inp_recent_trades = py_last_n 20 window\<rparr>;
          engine = \<lparr>eng_symbol = symbol cfg, quote_amount = trade_amount_quote cfg\<rparr>
      in Triggered llm_input
           (bind_exn (analyze lib resp llm_input) (\<lambda>decision.
              bind_exn (decide_order engine px decision) (\<lambda>order_req.
                Inr (decision, execution_gate cfg order_req)))))"

definition handle_trade ::
  "pylib \<Rightarrow> Settings \<Rightarrow> pyfloat \<Rightarrow> remote \<Rightarrow> pyval \<Rightarrow> buffer \<Rightarrow> buffer \<times> outcome" where
  \<comment> \<open>\<open>now\<close> is what \<open>time.time()\<close> returns during the call, \<open>resp\<close> what the remote
      service answers if the call reaches it\<close>
  "handle_trade lib cfg now resp data s =
     (if \<not> is_dict data then (s, NotADict)
      else let ts = extract_ts lib data
           in case extract_price lib data of
                Inl e \<Rightarrow> (s, Raised e)
              | Inr px \<Rightarrow>
                  if ts \<noteq> 0 \<and> ts \<le> last_trade_ts s then (s, Stale)
                  else let s1 = (if ts \<noteq> 0 then s\<lparr>last_trade_ts := ts\<rparr> else s);
                           s2 = s1\<lparr>last_activity := now\<rparr>;
                           appended = recent_trades s2 @ [data];
                           window = (if length appended > 200 then py_last_n 200 appended
                                     else appended);
                           s3 = s2\<lparr>recent_trades := window\<rparr>
                       in if llm_configured cfg \<and> length window mod 6 = 0 \<and> flt (Finite 0) px
                          then (s3, Appended (decision_trigger lib cfg resp px window))
                          else (s3, Appended NoTrigger))"

definition endswith :: "string \<Rightarrow> string \<Rightarrow> bool" where
  "endswith s suffix = (length suffix \<le> length s \<and> drop (length s - length suffix) s = suffix)"

definition on_msg ::
  "pylib \<Rightarrow> Settings \<Rightarrow> pyfloat \<Rightarrow> remote \<Rightarrow> string \<Rightarrow> pyval \<Rightarrow> buffer \<Rightarrow> buffer \<times> outcome option" where
  "on_msg lib cfg now resp channel data s =
     (if endswith channel ''@trade''
      then (let r = handle_trade lib cfg now resp data s in (fst r, Some (snd r)))
      else (s, None))"

section \<open>main.py: one pass of the polling loop\<close>

fun key_candidates :: "(string \<times> pyval) list \<Rightarrow> string list \<Rightarrow> pyval list" where
  \<comment> \<open>the first of the well-known keys that is present with a list value\<close>
  "key_candidates kvs [] = []"
| "key_candidates kvs (k # ks) =
     (case map_of kvs k of Some (PList xs) \<Rightarrow> xs | _ \<Rightarrow> key_candidates kvs ks)"

fun value_candidates :: "(string \<times> pyval) list \<Rightarrow> pyval list" where
  \<comment> \<open>the first list among \<open>resp.values()\<close>\<close>
  "value_candidates [] = []"
| "value_candidates (kv # kvs) =
     (case snd kv of PList xs \<Rightarrow> xs | _ \<Rightarrow> value_candidates kvs)"

definition extract_candidates :: "pyval \<Rightarrow> pyval list" where
  "extract_candidates resp =
     (case resp of
        PDict kvs \<Rightarrow>
          (let candidates = key_candidates kvs [''trades'', ''data'', ''result'', ''items'']
           in if candidates = [] then value_candidates kvs else candidates)
      | PList xs \<Rightarrow> xs
      | _ \<Rightarrow> [])"

text \<open>
  The \<open>for tr in candidates_sorted\<close> loop. \<open>env i\<close> is the clock reading and the remote
  answer while the \<open>i\<close>-th sorted record is handled. The result is the buffer, the
  records handed to \<open>handle_trade\<close> with their outcomes, \<open>new_count\<close>, and the exception
  that ended the loop early, if any. An exception leaves the loop for the handler of the
  enclosing \<open>try\<close>; the buffer keeps what was done before.
\<close>

definition raises :: "outcome \<Rightarrow> pyexn option" where
  "raises out =
     (case out of
        Raised e \<Rightarrow> Some e
      | Appended (Triggered inp (Inl e)) \<Rightarrow> Some e
      | _ \<Rightarrow> None)"

fun feed ::
  "pylib \<Rightarrow> Settings \<Rightarrow> (nat \<Rightarrow> pyfloat \<times> remote) \<Rightarrow> nat \<Rightarrow> pyval list \<Rightarrow> buffer
     \<Rightarrow> buffer \<times> (pyval \<times> outcome) list \<times> nat \<times> pyexn option" where
  "feed lib cfg env i [] s = (s, [], 0, None)"
| "feed lib cfg env i (tr # trs) s =
     (let ts = extract_ts lib tr
      in if ts \<noteq> 0 \<and> ts \<le> last_trade_ts s then feed lib cfg env (Suc i) trs s
         else (case handle_trade lib cfg (fst (env i)) (snd (env i)) tr s of
                 (s', out) \<Rightarrow>
                   (case raises out of
                      Some e \<Rightarrow> (s', [(tr, out)], 0, Some e)
                    | None \<Rightarrow>
                        (case feed lib cfg env (Suc i) trs s' of
                           (s'', outs, new_count, exn) \<Rightarrow>
                             (s'', (tr, out) # outs, Suc new_count, exn)))))"

definition poll_pass ::
  "pylib \<Rightarrow> Settings \<Rightarrow> (nat \<Rightarrow> pyfloat \<times> remote) \<Rightarrow> pyval \<Rightarrow> buffer
     \<Rightarrow> buffer \<times> (pyval \<times> outcome) list \<times> nat \<times> pyexn option" where
  "poll_pass lib cfg env resp s =
     (let candidates = extract_candidates resp;
          candidates_sorted = sort_key (extract_ts lib) candidates
      in feed lib cfg env 0 candidates_sorted s)"

definition is_accepted :: "outcome \<Rightarrow> bool" where
  "is_accepted out = (case out of Appended d \<Rightarrow> True | _ \<Rightarrow> False)"

definition accepted :: "(pyval \<times> outcome) list \<Rightarrow> pyval list" where
  "accepted outs = map fst (filter (\<lambda>r. is_accepted (snd r)) outs)"

text \<open>A run of the pipeline: the calls of \<open>handle_trade\<close> in the order they happen, each
  with its clock reading, its remote answer and the event, from whichever transport.\<close>

fun run ::
  "pylib \<Rightarrow> Settings \<Rightarrow> (pyfloat \<times> remote \<times> pyval) list \<Rightarrow> buffer
     \<Rightarrow> buffer \<times> (pyval \<times> outcome) list" where
  "run lib cfg [] s = (s, [])"
| "run lib cfg (ev # evs) s =
     (case handle_trade lib cfg (fst ev) (fst (snd ev)) (snd (snd ev)) s of
        (s', out) \<Rightarrow>
          (case run lib cfg evs s' of (s'', outs) \<Rightarrow> (s'', (snd (snd ev), out) # outs)))"

fun states :: "pylib \<Rightarrow> Settings \<Rightarrow> (pyfloat \<times> remote \<times> pyval) list \<Rightarrow> buffer \<Rightarrow> buffer list" where
  \<comment> \<open>the buffer before the first call and after each call of a run\<close>
  "states lib cfg [] s = [s]"
| "states lib cfg (ev # evs) s =
     s # states lib cfg evs (fst (handle_trade lib cfg (fst ev) (fst (snd ev)) (snd (snd ev)) s))"

definition fired :: "outcome \<Rightarrow> bool" where
  \<comment> \<open>the call invoked the decision function\<close>
  "fired out = (case out of Appended (Triggered inp r) \<Rightarrow> True | _ \<Rightarrow> False)"

text \<open>Concrete surroundings for evaluating the model: parsers that reject every string,
  and a configuration with the decision function switched on.\<close>

definition no_parse :: pylib where
  "no_parse = \<lparr>str_to_int = (\<lambda>s. None), str_to_float = (\<lambda>s. None), json_loads = (\<lambda>s. None)\<rparr>"

definition llm_cfg :: Settings where
  "llm_cfg = \<lparr>wallex_api_key = [], symbol = ''BTCUSDT'', use_llm = True, gemini_api_key = ''key'',
               trade_amount_quote = Finite 10, dry_run = True\<rparr>"

definition untimed_trade :: pyval where
  \<comment> \<open>a trade record with price 1 and no timestamp field\<close>
  "untimed_trade = PDict [(''price'', PFloat (Finite 1))]"

definition priced_event :: "pyfloat \<times> remote \<times> pyval" where
  \<comment> \<open>that record as an event, while the remote service is unreachable\<close>
  "priced_event = (Finite 0, RequestException ''down'', untimed_trade)"

text \<open>What a polling pass is to accept from records fed in the given order at watermark
  \<open>w\<close>: the dict records whose timestamp is zero or above the watermark, which each
  accepted non-zero timestamp raises.\<close>

fun watermark_filter :: "pylib \<Rightarrow> int \<Rightarrow> pyval list \<Rightarrow> pyval list" where
  "watermark_filter lib w [] = []"
| "watermark_filter lib w (tr # trs) =
     (let ts = extract_ts lib tr
      in if is_dict tr \<and> (ts = 0 \<or> w < ts)
         then tr # watermark_filter lib (if ts = 0 then w else ts) trs
         else watermark_filter lib w trs)"

definition trade_at :: "int \<Rightarrow> pyval" where
  \<comment> \<open>a trade record with timestamp \<open>t\<close> and price 1\<close>
  "trade_at t = PDict [(''ts'', PInt t), (''price'', PFloat (Finite 1))]"

definition buffer_at :: "int \<Rightarrow> buffer" where
  \<comment> \<open>a buffer with watermark \<open>w\<close> and an empty window\<close>
  "buffer_at w = \<lparr>recent_trades = [], last_trade_ts = w, last_activity = Finite 0\<rparr>"

definition idle_env :: "nat \<Rightarrow> pyfloat \<times> remote" where
  "idle_env i = (Finite 0, RequestException ''down'')"

section \<open>wallex/ws\_client.py: subscriptions and the connect handler\<close>

text \<open>
  \<open>_subscriptions\<close> is a set; the model keeps it as a list without repetition (the order
  in which \<open>list(self._subscriptions)\<close> yields it). \<open>emit_ok ch\<close> tells whether
  \<open>sio.emit("subscribe", {"channel": ch})\<close> returns rather than raises; each entry of an
  emit log is one call of \<open>sio.emit\<close> with its channel and whether the request went out.
\<close>

record WallexWSClient =
  connected :: bool
  subscriptions :: "string list"

definition ws_init :: WallexWSClient where
  "ws_init = \<lparr>connected = False, subscriptions = []\<rparr>"

definition set_add :: "string \<Rightarrow> string list \<Rightarrow> string list" where
  "set_add ch subs = (if ch \<in> set subs then subs else subs @ [ch])"

definition connect_handler :: "(string \<Rightarrow> bool) \<Rightarrow> WallexWSClient \<Rightarrow> (string \<times> bool) list" where
  \<comment> \<open>the \<open>connect\<close> event handler: one \<open>emit\<close> per channel, a failure is logged and the loop goes on\<close>
  "connect_handler emit_ok ws = map (\<lambda>ch. (ch, emit_ok ch)) (subscriptions ws)"

definition ws_connect ::
  "(string \<Rightarrow> bool) \<Rightarrow> bool \<Rightarrow> WallexWSClient \<Rightarrow> WallexWSClient \<times> (string \<times> bool) list" where
  \<comment> \<open>\<open>connect()\<close>: \<open>sio.connect\<close> raises when already connected or when the attempt
      fails (\<open>ok\<close> false), and the exception is logged; on success the handler runs\<close>
  "ws_connect emit_ok ok ws =
     (if connected ws \<or> \<not> ok then (ws, [])
      else (let ws' = ws\<lparr>connected := True\<rparr> in (ws', connect_handler emit_ok ws')))"

definition subscribe ::
  "(string \<Rightarrow> bool) \<Rightarrow> bool \<Rightarrow> string \<Rightarrow> WallexWSClient \<Rightarrow> WallexWSClient \<times> (string \<times> bool) list" where
  "subscribe emit_ok ok channel ws =
     (let ws1 = ws\<lparr>subscriptions := set_add channel (subscriptions ws)\<rparr>;
          r = (if \<not> connected ws1 then ws_connect emit_ok ok ws1 else (ws1, []))
      in (fst r, snd r @ [(channel, connected (fst r) \<and> emit_ok channel)]))"

datatype ws_event =
    Subscribe string bool
  | Connect bool
  | Reconnected
  | ConnectionLost
  | Disconnect

fun ws_step ::
  "(string \<Rightarrow> bool) \<Rightarrow> ws_event \<Rightarrow> WallexWSClient \<Rightarrow> WallexWSClient \<times> (string \<times> bool) list" where
  "ws_step emit_ok (Subscribe ch ok) ws = subscribe emit_ok ok ch ws"
| "ws_step emit_ok (Connect ok) ws = ws_connect emit_ok ok ws"
| "ws_step emit_ok Reconnected ws =
     (if connected ws then (ws, [])
      else (let ws' = ws\<lparr>connected := True\<rparr> in (ws', connect_handler emit_ok ws')))"
| "ws_step emit_ok ConnectionLost ws = (ws\<lparr>connected := False\<rparr>, [])"
| "ws_step emit_ok Disconnect ws = (ws\<lparr>connected := False\<rparr>, [])"

fun ws_run :: "(string \<Rightarrow> bool) \<Rightarrow> ws_event list \<Rightarrow> WallexWSClient \<Rightarrow> WallexWSClient" where
  "ws_run emit_ok [] ws = ws"
| "ws_run emit_ok (e # es) ws = ws_run emit_ok es (fst (ws_step emit_ok e ws))"

fun subscribed_in :: "ws_event list \<Rightarrow> string set" where
  "subscribed_in [] = {}"
| "subscribed_in (Subscribe ch ok # es) = insert ch (subscribed_in es)"
| "subscribed_in (e # es) = subscribed_in es"

section \<open>Properties of the trade handler\<close>

lemma extract_price_dict: "is_dict data \<Longrightarrow> \<exists>px. extract_price lib data = Inr px"
  by (cases data) (auto simp: extract_price_def price_field_def bind_exn_def split: option.splits)

lemma extract_ts_not_dict: "\<not> is_dict data \<Longrightarrow> extract_ts lib data = 0"
  by (cases data) (auto simp: extract_ts_def ts_field_def bind_exn_def)

lemma handle_trade_stale:
  assumes "extract_ts lib data \<noteq> 0" and "extract_ts lib data \<le> last_trade_ts s"
  shows "handle_trade lib cfg now resp data s = (s, Stale)"
proof -
  have d: "is_dict data" using assms(1) extract_ts_not_dict by blast
  then obtain px where "extract_price lib data = Inr px" using extract_price_dict by blast
  with d assms show ?thesis by (simp add: handle_trade_def)
qed

lemma run_append:
  "run lib cfg (xs @ ys) s =
     (fst (run lib cfg ys (fst (run lib cfg xs s))),
      snd (run lib cfg xs s) @ snd (run lib cfg ys (fst (run lib cfg xs s))))"
  by (induction xs arbitrary: s) (auto split: prod.splits)

lemma handle_trade_watermark:
  "last_trade_ts s \<le> last_trade_ts (fst (handle_trade lib cfg now resp data s))"
  by (auto simp: handle_trade_def Let_def split: sum.splits)

lemma handle_trade_ts_zero:
  "extract_ts lib data = 0 \<Longrightarrow> last_trade_ts (fst (handle_trade lib cfg now resp data s)) = last_trade_ts s"
  by (auto simp: handle_trade_def Let_def split: sum.splits)

lemma handle_trade_window:
  "recent_trades (fst (handle_trade lib cfg now resp data s)) =
     (if is_accepted (snd (handle_trade lib cfg now resp data s))
      then (if length (recent_trades s) \<ge> 200 then py_last_n 200 (recent_trades s @ [data]) else recent_trades s @ [data])
      else recent_trades s)"
  by (auto simp: handle_trade_def Let_def is_accepted_def split: sum.splits)


lemma py_last_n_idem: "py_last_n n (py_last_n n xs @ ys) = py_last_n n (xs @ ys)"
  by (cases "n \<le> length xs") (simp_all add: py_last_n_def add.commute)

lemma handle_trade_window':
  "recent_trades (fst (handle_trade lib cfg now resp data s)) =
     (if is_accepted (snd (handle_trade lib cfg now resp data s))
      then py_last_n 200 (recent_trades s @ [data]) else recent_trades s)"
  by (auto simp: handle_trade_def Let_def is_accepted_def py_last_n_def split: sum.splits)

lemma handle_trade_length:
  "length (recent_trades s) \<le> 200 \<Longrightarrow> length (recent_trades (fst (handle_trade lib cfg now resp data s))) \<le> 200"
  by (auto simp: handle_trade_def Let_def py_last_n_def split: sum.splits)

lemma accepted_Cons:
  "accepted ((d, out) # outs) = (if is_accepted out then d # accepted outs else accepted outs)"
  by (simp add: accepted_def)

lemma run_window:
  "length (recent_trades s) \<le> 200 \<Longrightarrow>
   recent_trades (fst (run lib cfg evs s)) =
     py_last_n 200 (recent_trades s @ accepted (snd (run lib cfg evs s)))"
proof (induction evs arbitrary: s)
  case Nil
  then show ?case by (simp add: accepted_def py_last_n_def)
next
  case (Cons ev evs)
  obtain s' out where h: "handle_trade lib cfg (fst ev) (fst (snd ev)) (snd (snd ev)) s = (s', out)"
    by (cases "handle_trade lib cfg (fst ev) (fst (snd ev)) (snd (snd ev)) s")
  have len: "length (recent_trades s') \<le> 200"
    using handle_trade_length [OF Cons.prems, of lib cfg "fst ev" "fst (snd ev)" "snd (snd ev)"] h by simp
  have w: "recent_trades s' = (if is_accepted out then py_last_n 200 (recent_trades s @ [snd (snd ev)]) else recent_trades s)"
    using handle_trade_window' [of lib cfg "fst ev" "fst (snd ev)" "snd (snd ev)" s] h by simp
  obtain s'' outs where r: "run lib cfg evs s' = (s'', outs)" by (cases "run lib cfg evs s'")
  have ih: "recent_trades s'' = py_last_n 200 (recent_trades s' @ accepted outs)"
    using Cons.IH [OF len] r by simp
  show ?case
  proof (cases "is_accepted out")
    case True
    then show ?thesis using h r ih w py_last_n_idem [of 200 "recent_trades s @ [snd (snd ev)]" "accepted outs"]
      by (simp add: accepted_Cons)
  next
    case False
    then show ?thesis using h r ih w by (simp add: accepted_Cons)
  qed
qed

lemma fired_iff:
  "fired (snd (handle_trade lib cfg now resp data s)) \<longleftrightarrow>
     is_accepted (snd (handle_trade lib cfg now resp data s)) \<and> llm_configured cfg \<and>
     length (recent_trades (fst (handle_trade lib cfg now resp data s))) mod 6 = 0 \<and>
     (\<exists>px. extract_price lib data = Inr px \<and> flt (Finite 0) px)"
  by (auto simp: handle_trade_def Let_def fired_def is_accepted_def decision_trigger_def split: sum.splits)

lemma no_trigger_at_capacity:
  assumes "length (recent_trades s) = 200"
  shows "\<not> fired (snd (handle_trade lib cfg now resp data s))"
proof -
  have "length (recent_trades (fst (handle_trade lib cfg now resp data s))) = 200"
    using assms by (simp add: handle_trade_window' py_last_n_def)
  then show ?thesis by (simp add: fired_iff)
qed

lemma accepted_ts_zero:
  "is_dict data \<Longrightarrow> extract_ts lib data = 0 \<Longrightarrow> is_accepted (snd (handle_trade lib cfg now resp data s))"
  using extract_price_dict [of data lib]
  by (auto simp: handle_trade_def Let_def is_accepted_def split: sum.splits)

lemma run_all_accepted:
  "list_all (\<lambda>ev. is_dict (snd (snd ev)) \<and> extract_ts lib (snd (snd ev)) = 0) evs \<Longrightarrow>
   accepted (snd (run lib cfg evs s)) = map (\<lambda>ev. snd (snd ev)) evs"
proof (induction evs arbitrary: s)
  case Nil
  then show ?case by (simp add: accepted_def)
next
  case (Cons ev evs)
  then have a: "is_accepted (snd (handle_trade lib cfg (fst ev) (fst (snd ev)) (snd (snd ev)) s))"
    using accepted_ts_zero by simp
  show ?case using Cons a by (simp add: accepted_Cons case_prod_beta)
qed

lemma accepted_append: "accepted (xs @ ys) = accepted xs @ accepted ys"
  by (simp add: accepted_def)

lemma feed_watermark:
  "last_trade_ts s \<le> last_trade_ts (fst (feed lib cfg env i trs s))"
proof (induction trs arbitrary: s i)
  case Nil
  then show ?case by simp
next
  case (Cons tr trs)
  have h: "last_trade_ts s \<le> last_trade_ts (fst (handle_trade lib cfg (fst (env i)) (snd (env i)) tr s))"
    by (rule handle_trade_watermark)
  have ih: "last_trade_ts s' \<le> last_trade_ts (fst (feed lib cfg env (Suc i) trs s'))" for s'
    by (rule Cons.IH)
  show ?case
    using h ih [of s] ih [of "fst (handle_trade lib cfg (fst (env i)) (snd (env i)) tr s)"]
    by (auto simp: Let_def case_prod_beta split: option.splits)
qed

lemma states_sorted: "sorted (map last_trade_ts (states lib cfg evs s))"
proof (induction evs arbitrary: s)
  case Nil
  then show ?case by simp
next
  case (Cons ev evs)
  let ?s' = "fst (handle_trade lib cfg (fst ev) (fst (snd ev)) (snd (snd ev)) s)"
  have hd: "last_trade_ts s \<le> last_trade_ts ?s'" by (rule handle_trade_watermark)
  have srt: "sorted (map last_trade_ts (states lib cfg evs ?s'))" by (rule Cons.IH)
  have "states lib cfg evs ?s' \<noteq> []" by (cases evs) simp_all
  then obtain t ts where st: "states lib cfg evs ?s' = t # ts" by (cases "states lib cfg evs ?s'") auto
  have t: "t = ?s'" using st by (cases evs) simp_all
  have "\<forall>x \<in> set (map last_trade_ts (states lib cfg evs ?s')). last_trade_ts s \<le> x"
    using srt st t hd by auto
  then show ?case using srt by simp
qed

lemma priced_event_facts:
  "is_dict (snd (snd priced_event))" "extract_ts lib (snd (snd priced_event)) = 0"
  "extract_price lib (snd (snd priced_event)) = Inr (Finite 1)"
  by (simp_all add: priced_event_def untimed_trade_def extract_ts_def ts_field_def extract_price_def
        price_field_def bind_exn_def)

lemma run_priced_accepted:
  "accepted (snd (run lib cfg (replicate n priced_event) s)) = replicate n (snd (snd priced_event))"
proof -
  have "list_all (\<lambda>ev. is_dict (snd (snd ev)) \<and> extract_ts lib (snd (snd ev)) = 0) (replicate n priced_event)"
    by (simp add: list_all_iff priced_event_facts)
  then show ?thesis by (simp add: run_all_accepted)
qed

lemma run_priced_window:
  "length (recent_trades (fst (run lib cfg (replicate n priced_event) (init_buffer t0)))) = min n 200"
  using run_window [of "init_buffer t0" lib cfg "replicate n priced_event"]
  by (simp add: run_priced_accepted init_buffer_def py_last_n_def)

lemma run_snoc:
  "snd (run lib cfg (evs @ [ev]) s) =
     snd (run lib cfg evs s) @
     [(snd (snd ev), snd (handle_trade lib cfg (fst ev) (fst (snd ev)) (snd (snd ev)) (fst (run lib cfg evs s))))]"
  unfolding run_append by (simp add: case_prod_beta)

text \<open>
  C2: an event whose extracted timestamp is non-zero and at most the watermark
  (\<open>last_trade_ts\<close>), equality included, is rejected by \<open>handle_trade\<close>: the buffer
  (watermark, activity clock, window) is returned as it was, the event does not count as
  accepted, and the decision function is not invoked. The same holds through the push
  callback \<open>on_msg\<close>, and the polling loop skips such a record.
\<close>

theorem stale_event_rejected:
  assumes "extract_ts lib data \<noteq> 0" and "extract_ts lib data \<le> last_trade_ts s"
  shows "fst (handle_trade lib cfg now resp data s) = s
       \<and> snd (handle_trade lib cfg now resp data s) = Stale
       \<and> \<not> is_accepted (snd (handle_trade lib cfg now resp data s))
       \<and> \<not> fired (snd (handle_trade lib cfg now resp data s))
       \<and> length (accepted (outs @ [(data, snd (handle_trade lib cfg now resp data s))]))
           = length (accepted outs)
       \<and> fst (on_msg lib cfg now resp channel data s) = s
       \<and> feed lib cfg env i (data # trs) s = feed lib cfg env (Suc i) trs s"
  using handle_trade_stale [OF assms, of cfg now resp] assms
  by (simp add: is_accepted_def fired_def accepted_def on_msg_def Let_def)

theorem stale_event_rejected_witness:
  "extract_ts no_parse (PDict [(''ts'', PInt 5), (''price'', PInt 1)]) \<noteq> 0
   \<and> extract_ts no_parse (PDict [(''ts'', PInt 5), (''price'', PInt 1)])
       \<le> last_trade_ts \<lparr>recent_trades = [], last_trade_ts = 7, last_activity = Finite 0\<rparr>
   \<and> handle_trade no_parse llm_cfg (Finite 1) (RequestException []) (PDict [(''ts'', PInt 5), (''price'', PInt 1)])
        \<lparr>recent_trades = [], last_trade_ts = 7, last_activity = Finite 0\<rparr>
       = (\<lparr>recent_trades = [], last_trade_ts = 7, last_activity = Finite 0\<rparr>, Stale)"
proof -
  let ?d = "PDict [(''ts'', PInt 5), (''price'', PInt 1)]"
  let ?b = "\<lparr>recent_trades = [], last_trade_ts = 7, last_activity = Finite 0\<rparr>"
  have ts: "extract_ts no_parse ?d = 5"
    by (simp add: extract_ts_def ts_field_def bind_exn_def)
  have h1: "extract_ts no_parse ?d \<noteq> 0" by (simp add: ts)
  have h2: "extract_ts no_parse ?d \<le> last_trade_ts ?b" by (simp add: ts)
  have "fst (handle_trade no_parse llm_cfg (Finite 1) (RequestException []) ?d ?b) = ?b
      \<and> snd (handle_trade no_parse llm_cfg (Finite 1) (RequestException []) ?d ?b) = Stale"
    using stale_event_rejected [OF h1 h2, of llm_cfg "Finite 1" "RequestException []" "[]" "[]"
        "(\<lambda>i. (Finite 0, RequestException []))" 0 "[]"]
    by blast
  then have "handle_trade no_parse llm_cfg (Finite 1) (RequestException []) ?d ?b = (?b, Stale)"
    by (simp add: prod_eq_iff)
  with h1 h2 show ?thesis by blast
qed

text \<open>
  C3: along every sequence of \<open>handle_trade\<close> calls the watermark never decreases: the
  watermarks of the successive buffers of a run are sorted, each single call (direct,
  through \<open>on_msg\<close>, or a whole polling pass) leaves it at least as large as before, and
  an event whose extracted timestamp is zero leaves it unchanged.
\<close>

theorem watermark_monotone:
  "sorted (map last_trade_ts (states lib cfg evs s))
   \<and> last_trade_ts s \<le> last_trade_ts (fst (handle_trade lib cfg now resp data s))
   \<and> (extract_ts lib data = 0 \<longrightarrow>
        last_trade_ts (fst (handle_trade lib cfg now resp data s)) = last_trade_ts s)
   \<and> last_trade_ts s \<le> last_trade_ts (fst (on_msg lib cfg now resp channel data s))
   \<and> last_trade_ts s \<le> last_trade_ts (fst (poll_pass lib cfg env batch s))"
  using states_sorted [of lib cfg evs s] handle_trade_watermark [of s lib cfg now resp data]
    handle_trade_ts_zero [of lib data cfg now resp s] feed_watermark [of s lib cfg env 0]
  by (simp add: on_msg_def poll_pass_def Let_def)

theorem watermark_monotone_witness:
  "extract_ts no_parse (snd (snd priced_event)) = 0
   \<and> last_trade_ts (fst (handle_trade no_parse llm_cfg (Finite 1) (RequestException [])
         (snd (snd priced_event)) \<lparr>recent_trades = [], last_trade_ts = 7, last_activity = Finite 0\<rparr>)) = 7"
proof -
  have z: "extract_ts no_parse (snd (snd priced_event)) = 0" by (rule priced_event_facts)
  show ?thesis
    using z watermark_monotone [of no_parse llm_cfg "[]"
        "\<lparr>recent_trades = [], last_trade_ts = 7, last_activity = Finite 0\<rparr>"
        "Finite 1" "RequestException []" "snd (snd priced_event)" "[]"
        "(\<lambda>i. (Finite 0, RequestException []))" PNone]
    by simp
qed

text \<open>
  C4: after every run of \<open>handle_trade\<close> calls from the initial, empty window, the window
  holds at most 200 entries, exactly \<open>min(count, 200)\<close> of them, and is the suffix of that
  length of the sequence of accepted events, in their order: the accepted sequence is
  the evicted prefix followed by the window.
\<close>

theorem window_is_suffix:
  "length (recent_trades (fst (run lib cfg evs (init_buffer t0)))) \<le> 200
   \<and> length (recent_trades (fst (run lib cfg evs (init_buffer t0))))
       = min (length (accepted (snd (run lib cfg evs (init_buffer t0))))) 200
   \<and> recent_trades (fst (run lib cfg evs (init_buffer t0)))
       = py_last_n 200 (accepted (snd (run lib cfg evs (init_buffer t0))))
   \<and> accepted (snd (run lib cfg evs (init_buffer t0)))
       = take (length (accepted (snd (run lib cfg evs (init_buffer t0)))) - 200)
           (accepted (snd (run lib cfg evs (init_buffer t0))))
         @ recent_trades (fst (run lib cfg evs (init_buffer t0)))"
proof -
  have "recent_trades (fst (run lib cfg evs (init_buffer t0)))
        = py_last_n 200 (recent_trades (init_buffer t0) @ accepted (snd (run lib cfg evs (init_buffer t0))))"
    by (rule run_window) (simp add: init_buffer_def)
  then have w: "recent_trades (fst (run lib cfg evs (init_buffer t0)))
        = py_last_n 200 (accepted (snd (run lib cfg evs (init_buffer t0))))"
    by (simp add: init_buffer_def)
  show ?thesis unfolding w by (auto simp: py_last_n_def)
qed

theorem window_is_suffix_witness:
  "recent_trades (fst (run no_parse llm_cfg (replicate 203 priced_event) (init_buffer (Finite 0))))
     = replicate 200 (snd (snd priced_event))
   \<and> length (accepted (snd (run no_parse llm_cfg (replicate 203 priced_event) (init_buffer (Finite 0))))) = 203"
proof -
  have a: "accepted (snd (run no_parse llm_cfg (replicate 203 priced_event) (init_buffer (Finite 0))))
           = replicate 203 (snd (snd priced_event))"
    by (rule run_priced_accepted)
  have "recent_trades (fst (run no_parse llm_cfg (replicate 203 priced_event) (init_buffer (Finite 0))))
        = py_last_n 200 (replicate 203 (snd (snd priced_event)))"
    using window_is_suffix [of no_parse llm_cfg "replicate 203 priced_event" "Finite 0"]
    by (simp only: a)
  moreover have "py_last_n 200 (replicate 203 (snd (snd priced_event))) = replicate 200 (snd (snd priced_event))"
    by (simp only: py_last_n_def length_replicate drop_replicate) simp
  moreover have "length (replicate 203 (snd (snd priced_event))) = 203"
    by (simp only: length_replicate)
  ultimately show ?thesis by (simp only: a) 
qed

section \<open>Cadence of the decision trigger\<close>

text \<open>While fewer than 200 events have been accepted, the window length is the number of
  accepted events, and an accepted event invokes the decision function exactly when a
  client is configured, the count it completes is a multiple of 6, and its price is
  positive.\<close>

lemma cadence_below_capacity:
  assumes "length (accepted (snd (run lib cfg evs (init_buffer t0)))) < 200"
    and "is_accepted (snd (handle_trade lib cfg now resp data (fst (run lib cfg evs (init_buffer t0)))))"
  shows "fired (snd (handle_trade lib cfg now resp data (fst (run lib cfg evs (init_buffer t0))))) \<longleftrightarrow>
           llm_configured cfg
         \<and> Suc (length (accepted (snd (run lib cfg evs (init_buffer t0))))) mod 6 = 0
         \<and> (\<exists>px. extract_price lib data = Inr px \<and> flt (Finite 0) px)"
proof -
  let ?b = "fst (run lib cfg evs (init_buffer t0))"
  have "recent_trades ?b = py_last_n 200 (recent_trades (init_buffer t0) @ accepted (snd (run lib cfg evs (init_buffer t0))))"
    by (rule run_window) (simp add: init_buffer_def)
  then have w: "length (recent_trades ?b) = length (accepted (snd (run lib cfg evs (init_buffer t0))))"
    using assms(1) by (simp add: init_buffer_def py_last_n_def)
  have "length (recent_trades (fst (handle_trade lib cfg now resp data ?b))) = Suc (length (recent_trades ?b))"
    using assms w by (simp add: handle_trade_window' py_last_n_def)
  then show ?thesis using assms(2) w by (simp add: fired_iff)
qed

lemma sixth_event_fires:
  "fired (snd (handle_trade no_parse llm_cfg (fst priced_event) (fst (snd priced_event))
     (snd (snd priced_event)) (fst (run no_parse llm_cfg (replicate 5 priced_event) (init_buffer (Finite 0))))))"
proof -
  have a: "length (accepted (snd (run no_parse llm_cfg (replicate 5 priced_event) (init_buffer (Finite 0))))) = 5"
    by (simp only: run_priced_accepted length_replicate)
  have acc: "is_accepted (snd (handle_trade no_parse llm_cfg (fst priced_event) (fst (snd priced_event))
     (snd (snd priced_event)) (fst (run no_parse llm_cfg (replicate 5 priced_event) (init_buffer (Finite 0))))))"
    by (rule accepted_ts_zero) (rule priced_event_facts)+
  have "llm_configured llm_cfg" by (simp add: llm_configured_def llm_cfg_def)
  moreover have "\<exists>px. extract_price no_parse (snd (snd priced_event)) = Inr px \<and> flt (Finite 0) px"
    by (simp add: priced_event_facts)
  ultimately show ?thesis
    using cadence_below_capacity [OF _ acc] a by simp
qed

text \<open>
  C1: the claim asks that the trigger fire at every accepted event whose count is a
  multiple of 6 and whose price is positive, also once the window is full. The code tests
  \<open>len(recent_trades) % 6\<close>, and the window stays at 200 entries, so from the 201st
  accepted event on the trigger never fires: with a client configured, 204 accepted
  events of price 1 are all accepted, 204 is a multiple of 6, the price is positive, and
  the 204th call does not invoke the decision function.
\<close>

theorem cadence_lost_at_capacity:
  "length (accepted (snd (run no_parse llm_cfg (replicate 204 priced_event) (init_buffer (Finite 0))))) = 204
   \<and> (204::nat) mod 6 = 0
   \<and> llm_configured llm_cfg
   \<and> extract_price no_parse (snd (snd priced_event)) = Inr (Finite 1)
   \<and> flt (Finite 0) (Finite 1)
   \<and> length (recent_trades (fst (run no_parse llm_cfg (replicate 204 priced_event) (init_buffer (Finite 0))))) = 200
   \<and> \<not> fired (snd (last (snd (run no_parse llm_cfg (replicate 204 priced_event) (init_buffer (Finite 0))))))"
proof -
  let ?init = "init_buffer (Finite 0)"
  let ?b = "fst (run no_parse llm_cfg (replicate 203 priced_event) ?init)"
  have split: "replicate 204 priced_event = replicate 203 priced_event @ [priced_event]"
  proof -
    have "replicate (203 + 1) priced_event = replicate 203 priced_event @ replicate 1 priced_event"
      by (rule replicate_add)
    then show ?thesis by simp
  qed
  have c1: "length (accepted (snd (run no_parse llm_cfg (replicate 204 priced_event) ?init))) = 204"
    by (simp only: run_priced_accepted length_replicate)
  have c6: "length (recent_trades (fst (run no_parse llm_cfg (replicate 204 priced_event) ?init))) = 200"
    by (simp only: run_priced_window)
  have w203: "length (recent_trades ?b) = 200"
    by (simp only: run_priced_window)
  have nf: "\<not> fired (snd (handle_trade no_parse llm_cfg (fst priced_event) (fst (snd priced_event))
                     (snd (snd priced_event)) ?b))"
    using w203 by (rule no_trigger_at_capacity)
  have c7: "\<not> fired (snd (last (snd (run no_parse llm_cfg (replicate 204 priced_event) ?init))))"
    unfolding split run_snoc last_snoc snd_conv by (rule nf)
  have cfg: "llm_configured llm_cfg" by (simp add: llm_configured_def llm_cfg_def)
  have px: "extract_price no_parse (snd (snd priced_event)) = Inr (Finite 1)"
    by (rule priced_event_facts)
  have m: "(204::nat) mod 6 = 0" by simp
  have f: "flt (Finite 0) (Finite 1)" by simp
  from c1 m cfg px f c6 c7 show ?thesis by blast
qed

section \<open>Resubscription on connect\<close>

lemma set_add_distinct: "distinct subs \<Longrightarrow> distinct (set_add ch subs)"
  by (simp add: set_add_def)

lemma set_add_set: "set (set_add ch subs) = insert ch (set subs)"
  by (auto simp: set_add_def)

lemma ws_step_subscriptions:
  "subscriptions (fst (ws_step emit_ok e ws)) =
     (case e of Subscribe ch ok \<Rightarrow> set_add ch (subscriptions ws) | _ \<Rightarrow> subscriptions ws)"
  by (cases e) (simp_all add: subscribe_def ws_connect_def Let_def)

lemma ws_run_distinct:
  "distinct (subscriptions ws) \<Longrightarrow> distinct (subscriptions (ws_run emit_ok es ws))"
proof (induction es arbitrary: ws)
  case Nil
  then show ?case by simp
next
  case (Cons e es)
  have "distinct (subscriptions (fst (ws_step emit_ok e ws)))"
    unfolding ws_step_subscriptions using Cons.prems
    by (simp add: set_add_distinct split: ws_event.splits)
  then show ?case using Cons.IH by simp
qed

lemma ws_run_set:
  "set (subscriptions (ws_run emit_ok es ws)) = set (subscriptions ws) \<union> subscribed_in es"
proof (induction es arbitrary: ws)
  case Nil
  then show ?case by simp
next
  case (Cons e es)
  have "set (subscriptions (ws_run emit_ok (e # es) ws))
        = set (subscriptions (fst (ws_step emit_ok e ws))) \<union> subscribed_in es"
    by (simp add: Cons.IH)
  then show ?case
    unfolding ws_step_subscriptions by (cases e) (simp_all add: set_add_set)
qed

lemma count_list_distinct:
  "distinct xs \<Longrightarrow> count_list xs x = (if x \<in> set xs then 1 else 0)"
  by (induction xs) auto

lemma handler_channels: "map fst (connect_handler emit_ok ws) = subscriptions ws"
  by (simp add: connect_handler_def comp_def)

text \<open>
  C8: in every state the client can reach from its creation, the connect handler issues
  exactly one \<open>emit("subscribe", ...)\<close> for each channel of the subscription set and none
  for any other channel; the set holds every channel subscribed so far (nothing removes
  one); the request goes out unless that \<open>emit\<close> raises. Every transition into Connected
  (a reconnection, a successful \<open>connect()\<close>, or the \<open>connect()\<close> made by \<open>subscribe\<close>
  while disconnected) runs the handler on the set of that moment; \<open>subscribe\<close> then adds
  its own request for the channel it was called with.
\<close>

theorem resubscribe_exactly_once:
  "count_list (map fst (connect_handler emit_ok (ws_run emit_ok evs ws_init))) ch
     = (if ch \<in> subscribed_in evs then 1 else 0)
   \<and> set (subscriptions (ws_run emit_ok evs ws_init)) = subscribed_in evs
   \<and> (\<forall>e \<in> set (connect_handler emit_ok (ws_run emit_ok evs ws_init)). snd e = emit_ok (fst e))
   \<and> (\<not> connected (ws_run emit_ok evs ws_init) \<longrightarrow>
        ws_step emit_ok Reconnected (ws_run emit_ok evs ws_init)
          = ((ws_run emit_ok evs ws_init)\<lparr>connected := True\<rparr>,
             connect_handler emit_ok (ws_run emit_ok evs ws_init))
      \<and> ws_step emit_ok (Connect True) (ws_run emit_ok evs ws_init)
          = ((ws_run emit_ok evs ws_init)\<lparr>connected := True\<rparr>,
             connect_handler emit_ok (ws_run emit_ok evs ws_init))
      \<and> snd (ws_step emit_ok (Subscribe c True) (ws_run emit_ok evs ws_init))
          = connect_handler emit_ok (ws_run emit_ok (evs @ [Subscribe c True]) ws_init)
            @ [(c, emit_ok c)])"
proof -
  let ?W = "ws_run emit_ok evs ws_init"
  have d: "distinct (subscriptions ?W)"
    by (rule ws_run_distinct) (simp add: ws_init_def)
  have s: "set (subscriptions ?W) = subscribed_in evs"
    by (simp add: ws_run_set ws_init_def)
  have c: "count_list (map fst (connect_handler emit_ok ?W)) ch = (if ch \<in> subscribed_in evs then 1 else 0)"
    using count_list_distinct [OF d, of ch] s by (simp add: handler_channels)
  have f: "\<forall>e \<in> set (connect_handler emit_ok ?W). snd e = emit_ok (fst e)"
    by (auto simp: connect_handler_def)
  have app: "ws_run emit_ok (evs @ [e]) ws = fst (ws_step emit_ok e (ws_run emit_ok evs ws))" for e ws evs
    by (induction evs arbitrary: ws) simp_all
  have t: "\<not> connected ?W \<longrightarrow>
        ws_step emit_ok Reconnected ?W = (?W\<lparr>connected := True\<rparr>, connect_handler emit_ok ?W)
      \<and> ws_step emit_ok (Connect True) ?W = (?W\<lparr>connected := True\<rparr>, connect_handler emit_ok ?W)
      \<and> snd (ws_step emit_ok (Subscribe c True) ?W)
          = connect_handler emit_ok (ws_run emit_ok (evs @ [Subscribe c True]) ws_init) @ [(c, emit_ok c)]"
    by (simp add: app ws_connect_def subscribe_def connect_handler_def Let_def)
  from c s f t show ?thesis by blast
qed

theorem resubscribe_exactly_once_witness:
  "\<not> connected (ws_run (\<lambda>ch. True) [Subscribe ''A'' False, Subscribe ''B'' False, Subscribe ''A'' False] ws_init)
   \<and> ws_step (\<lambda>ch. True) Reconnected
       (ws_run (\<lambda>ch. True) [Subscribe ''A'' False, Subscribe ''B'' False, Subscribe ''A'' False] ws_init)
     = (\<lparr>connected = True, subscriptions = [''A'', ''B'']\<rparr>, [(''A'', True), (''B'', True)])"
proof -
  let ?W = "ws_run (\<lambda>ch. True) [Subscribe ''A'' False, Subscribe ''B'' False, Subscribe ''A'' False] ws_init"
  have w: "?W = \<lparr>connected = False, subscriptions = [''A'', ''B'']\<rparr>"
    by (simp add: ws_init_def subscribe_def ws_connect_def set_add_def Let_def)
  have n: "\<not> connected ?W" unfolding w by simp
  have "ws_step (\<lambda>ch. True) Reconnected ?W = (?W\<lparr>connected := True\<rparr>, connect_handler (\<lambda>ch. True) ?W)"
    using resubscribe_exactly_once [of "\<lambda>ch. True"
        "[Subscribe ''A'' False, Subscribe ''B'' False, Subscribe ''A'' False]" "''A''" "''A''"] n
    by blast
  then have "ws_step (\<lambda>ch. True) Reconnected ?W
      = (\<lparr>connected = True, subscriptions = [''A'', ''B'']\<rparr>, [(''A'', True), (''B'', True)])"
    unfolding w by (simp add: connect_handler_def)
  with n show ?thesis by blast
qed

section \<open>The decision function's fallbacks\<close>

lemma parts_text_ok:
  "list_all part_ok ps \<Longrightarrow> \<exists>t. parts_text ps acc = Inr t"
proof (induction ps arbitrary: acc)
  case Nil
  then show ?case by simp
next
  case (Cons p ps)
  from Cons.prems have p: "part_ok p" and rest: "list_all part_ok ps" by simp_all
  from p obtain kvs where k: "p = PDict kvs" by (cases p) simp_all
  show ?case
  proof (cases "map_of kvs ''text''")
    case None
    then show ?thesis using Cons.IH [OF rest] k by (simp add: bind_exn_def)
  next
    case (Some v)
    with p k obtain t where "v = PStr t" by (cases v) simp_all
    then show ?thesis using Cons.IH [OF rest] k Some by (simp add: bind_exn_def)
  qed
qed

lemma content_parts_ok:
  assumes "candidate_ok cand"
  shows "\<exists>ps. bind_exn (dict_get cand ''content'' (PDict []))
               (\<lambda>content. bind_exn (dict_get content ''parts'' (PList [])) py_iter) = Inr ps
             \<and> list_all part_ok ps"
proof -
  from assms obtain kvs where k: "cand = PDict kvs" by (cases cand) simp_all
  show ?thesis
  proof (cases "map_of kvs ''content''")
    case None
    then show ?thesis using k by (simp add: bind_exn_def)
  next
    case (Some c)
    with assms k have c: "content_ok c" by simp
    then obtain cv where cv: "c = PDict cv" by (cases c) simp_all
    show ?thesis
    proof (cases "map_of cv ''parts''")
      case None
      then show ?thesis using k Some cv by (simp add: bind_exn_def)
    next
      case (Some ps)
      with c cv have "parts_ok ps" by simp
      then obtain pl where "ps = PList pl" "list_all part_ok pl" by (cases ps) simp_all
      then show ?thesis using k \<open>map_of kvs ''content'' = Some c\<close> cv Some by (simp add: bind_exn_def)
    qed
  qed
qed

lemma candidates_text_ok:
  "list_all candidate_ok cands \<Longrightarrow> \<exists>t. candidates_text cands acc = Inr t"
proof (induction cands arbitrary: acc)
  case Nil
  then show ?case by simp
next
  case (Cons cand cands)
  from Cons.prems have c: "candidate_ok cand" and rest: "list_all candidate_ok cands" by simp_all
  from content_parts_ok [OF c] obtain ps where
    ps: "bind_exn (dict_get cand ''content'' (PDict []))
           (\<lambda>content. bind_exn (dict_get content ''parts'' (PList [])) py_iter) = Inr ps"
    and ok: "list_all part_ok ps" by blast
  from parts_text_ok [OF ok] obtain t where t: "parts_text ps acc = Inr t" by blast
  from Cons.IH [OF rest] obtain t' where t': "candidates_text cands t = Inr t'" by blast
  show ?case using ps t t'
    by (auto simp: bind_exn_def split: sum.splits)
qed

lemma response_text_ok:
  assumes "expected_shape data"
  shows "\<exists>text. response_text data = Inr text"
proof -
  from assms obtain kvs where k: "data = PDict kvs" by (cases data) simp_all
  show ?thesis
  proof (cases "map_of kvs ''candidates''")
    case None
    then show ?thesis using k by (simp add: response_text_def bind_exn_def)
  next
    case (Some cs)
    with assms k have "candidates_ok cs" by simp
    then obtain cl where cl: "cs = PList cl" "list_all candidate_ok cl" by (cases cs) simp_all
    from candidates_text_ok [OF cl(2)] obtain t where "candidates_text cl [] = Inr t" by blast
    then show ?thesis using k Some cl by (simp add: response_text_def bind_exn_def)
  qed
qed

text \<open>
  What \<open>analyze\<close> does resolve: a remote-call failure (\<open>requests.RequestException\<close>) gives the fallback
  decision with reason \<open>LLM error: ...\<close>; for every response body of the expected shape
  \<open>analyze\<close> returns a decision and does not raise: the fallback \<open>No text in LLM response\<close>
  when no text was extracted, and otherwise the parsed decision, which is the fallback
  \<open>Could not parse LLM output\<close> when the text holds no \<open>{...}\<close> span, when \<open>json.loads\<close>
  rejects the span, or when the object does not fit \<open>LLMDecision\<close>. Every fallback has
  action \<open>flat\<close> and confidence 0.0.
\<close>

lemma analyze_fallbacks:
  "analyze lib (RequestException e) inp = Inr (fallback (''LLM error: '' @ e))
   \<and> (expected_shape data \<longrightarrow>
        (\<exists>text. response_text data = Inr text
           \<and> analyze lib (JsonBody data) inp
               = Inr (if text = [] then fallback ''No text in LLM response''
                      else parse_decision lib text)))
   \<and> (brace_span text = None \<longrightarrow> parse_decision lib text = fallback ''Could not parse LLM output'')
   \<and> (brace_span text = Some m \<and> json_loads lib m = None
        \<longrightarrow> parse_decision lib text = fallback ''Could not parse LLM output'')
   \<and> (brace_span text = Some m \<and> json_loads lib m = Some obj \<and> mk_decision obj = None
        \<longrightarrow> parse_decision lib text = fallback ''Could not parse LLM output'')
   \<and> action (fallback r) = PStr ''flat''
   \<and> confidence (fallback r) = PFloat (Finite 0)
   \<and> reason (fallback r) = PStr r"
proof -
  have a: "expected_shape data \<longrightarrow>
        (\<exists>text. response_text data = Inr text
           \<and> analyze lib (JsonBody data) inp
               = Inr (if text = [] then fallback ''No text in LLM response''
                      else parse_decision lib text))"
  proof
    assume "expected_shape data"
    then obtain t where "response_text data = Inr t" using response_text_ok by blast
    then show "\<exists>text. response_text data = Inr text
           \<and> analyze lib (JsonBody data) inp
               = Inr (if text = [] then fallback ''No text in LLM response''
                      else parse_decision lib text)"
      by (simp add: analyze_def bind_exn_def)
  qed
  show ?thesis using a by (simp add: analyze_def parse_decision_def fallback_def)
qed

lemma analyze_fallbacks_example:
  "expected_shape prose_body
   \<and> analyze no_parse (JsonBody prose_body) live_input = Inr (fallback ''Could not parse LLM output'')"
proof -
  have h: "expected_shape prose_body" by (simp add: prose_body_def)
  have t: "response_text prose_body = Inr (''wait and see'' @ [CHR 0x0A])"
    by (simp add: response_text_def bind_exn_def prose_body_def)
  have b: "brace_span (''wait and see'' @ [CHR 0x0A]) = None"
    by (simp add: brace_span_def)
  note af = analyze_fallbacks [of no_parse "[]" live_input prose_body "''wait and see'' @ [CHR 0x0A]" "[]" PNone "[]"]
  from af have "expected_shape prose_body \<longrightarrow>
        (\<exists>text. response_text prose_body = Inr text
           \<and> analyze no_parse (JsonBody prose_body) live_input
               = Inr (if text = [] then fallback ''No text in LLM response''
                      else parse_decision no_parse text))"
    by (elim conjE)
  with h obtain tx where tx: "response_text prose_body = Inr tx"
    and a: "analyze no_parse (JsonBody prose_body) live_input
              = Inr (if tx = [] then fallback ''No text in LLM response'' else parse_decision no_parse tx)"
    by (elim impE exE conjE)
  from af have p: "brace_span (''wait and see'' @ [CHR 0x0A]) = None \<longrightarrow>
            parse_decision no_parse (''wait and see'' @ [CHR 0x0A]) = fallback ''Could not parse LLM output''"
    by (elim conjE)
  from tx t have e: "tx = ''wait and see'' @ [CHR 0x0A]" by (simp only: sum.inject)
  from p b have q: "parse_decision no_parse (''wait and see'' @ [CHR 0x0A]) = fallback ''Could not parse LLM output''"
    by (rule mp)
  have "analyze no_parse (JsonBody prose_body) live_input = Inr (fallback ''Could not parse LLM output'')"
    unfolding a e q by simp
  with h show ?thesis by (rule conjI)
qed

text \<open>
  C7: \<open>analyze\<close> is to return the fallback decision rather than raise, for every response
  content. Its outer handler catches \<open>requests.RequestException\<close> only (the inner one,
  around \<open>json.loads\<close>, catches every exception), so a decoded body that is not shaped as
  the extraction loop expects raises out of it: for the body
  \<open>{"candidates": [{"content": null}]}\<close> the call \<open>.get("parts", [])\<close> on \<open>None\<close> raises
  AttributeError, which leaves \<open>analyze\<close>.
\<close>

theorem analyze_raises_on_malformed_body:
  "analyze no_parse (JsonBody null_content_body) live_input = Inl AttributeError"
  by (simp add: analyze_def response_text_def bind_exn_def null_content_body_def)

section \<open>One polling pass\<close>

lemma feed_skip:
  "extract_ts lib tr \<noteq> 0 \<and> extract_ts lib tr \<le> last_trade_ts s \<Longrightarrow>
   feed lib cfg env i (tr # trs) s = feed lib cfg env (Suc i) trs s"
  by (simp add: Let_def)

lemma feed_raise:
  "\<not> (extract_ts lib tr \<noteq> 0 \<and> extract_ts lib tr \<le> last_trade_ts s) \<Longrightarrow>
   raises (snd (handle_trade lib cfg (fst (env i)) (snd (env i)) tr s)) = Some e \<Longrightarrow>
   feed lib cfg env i (tr # trs) s =
     (fst (handle_trade lib cfg (fst (env i)) (snd (env i)) tr s),
      [(tr, snd (handle_trade lib cfg (fst (env i)) (snd (env i)) tr s))], 0, Some e)"
  by (auto simp: Let_def case_prod_beta)

lemma feed_cont:
  "\<not> (extract_ts lib tr \<noteq> 0 \<and> extract_ts lib tr \<le> last_trade_ts s) \<Longrightarrow>
   raises (snd (handle_trade lib cfg (fst (env i)) (snd (env i)) tr s)) = None \<Longrightarrow>
   feed lib cfg env i (tr # trs) s =
     (fst (feed lib cfg env (Suc i) trs (fst (handle_trade lib cfg (fst (env i)) (snd (env i)) tr s))),
      (tr, snd (handle_trade lib cfg (fst (env i)) (snd (env i)) tr s))
        # fst (snd (feed lib cfg env (Suc i) trs (fst (handle_trade lib cfg (fst (env i)) (snd (env i)) tr s)))),
      Suc (fst (snd (snd (feed lib cfg env (Suc i) trs (fst (handle_trade lib cfg (fst (env i)) (snd (env i)) tr s)))))),
      snd (snd (snd (feed lib cfg env (Suc i) trs (fst (handle_trade lib cfg (fst (env i)) (snd (env i)) tr s))))))"
  by (auto simp: Let_def case_prod_beta)


lemma feed_fed_sorted:
  "sorted (map f trs) \<Longrightarrow>
   set (map fst (fst (snd (feed lib cfg env i trs s)))) \<subseteq> set trs
   \<and> sorted (map f (map fst (fst (snd (feed lib cfg env i trs s)))))"
proof (induction trs arbitrary: s i)
  case Nil
  then show ?case by simp
next
  case (Cons tr trs)
  from Cons.prems have srt: "sorted (map f trs)" and le: "\<forall>x \<in> set trs. f tr \<le> f x" by auto
  let ?r = "handle_trade lib cfg (fst (env i)) (snd (env i)) tr s"
  have ih: "set (map fst (fst (snd (feed lib cfg env (Suc i) trs b)))) \<subseteq> set trs
            \<and> sorted (map f (map fst (fst (snd (feed lib cfg env (Suc i) trs b)))))" for b
    using Cons.IH [OF srt] by blast
  show ?case
  proof (cases "extract_ts lib tr \<noteq> 0 \<and> extract_ts lib tr \<le> last_trade_ts s")
    case True
    show ?thesis unfolding feed_skip [where env=env and i=i, OF True] using ih [of s] by auto
  next
    case False
    show ?thesis
    proof (cases "raises (snd ?r)")
      case None
      show ?thesis unfolding feed_cont [where env=env and i=i, OF False None] using ih [of "fst ?r"] le by auto
    next
      case (Some e)
      show ?thesis unfolding feed_raise [where env=env and i=i, OF False Some] by simp
    qed
  qed
qed

lemma handle_trade_fed:
  assumes "\<not> (extract_ts lib tr \<noteq> 0 \<and> extract_ts lib tr \<le> last_trade_ts s)"
  shows "is_accepted (snd (handle_trade lib cfg now resp tr s)) = is_dict tr"
    and "last_trade_ts (fst (handle_trade lib cfg now resp tr s))
           = (if is_dict tr \<and> extract_ts lib tr \<noteq> 0 then extract_ts lib tr else last_trade_ts s)"
proof -
  show "is_accepted (snd (handle_trade lib cfg now resp tr s)) = is_dict tr"
  proof (cases "is_dict tr")
    case True
    then obtain px where "extract_price lib tr = Inr px" using extract_price_dict by blast
    then show ?thesis using True assms by (auto simp: handle_trade_def Let_def is_accepted_def)
  next
    case False
    then show ?thesis by (simp add: handle_trade_def is_accepted_def)
  qed
  show "last_trade_ts (fst (handle_trade lib cfg now resp tr s))
           = (if is_dict tr \<and> extract_ts lib tr \<noteq> 0 then extract_ts lib tr else last_trade_ts s)"
  proof (cases "is_dict tr")
    case True
    then obtain px where "extract_price lib tr = Inr px" using extract_price_dict by blast
    then show ?thesis using True assms by (auto simp: handle_trade_def Let_def)
  next
    case False
    then show ?thesis by (simp add: handle_trade_def)
  qed
qed


lemma watermark_filter_step:
  assumes "\<not> (extract_ts lib tr \<noteq> 0 \<and> extract_ts lib tr \<le> w)"
  shows "watermark_filter lib w (tr # trs)
         = (if is_dict tr then [tr] else [])
           @ watermark_filter lib (if is_dict tr \<and> extract_ts lib tr \<noteq> 0 then extract_ts lib tr else w) trs"
  using assms by (auto simp: Let_def)

lemma watermark_filter_skip:
  assumes "extract_ts lib tr \<noteq> 0 \<and> extract_ts lib tr \<le> w"
  shows "watermark_filter lib w (tr # trs) = watermark_filter lib w trs"
  using assms by (auto simp: Let_def)

lemma feed_accepted_prefix:
  "\<exists>rest. watermark_filter lib (last_trade_ts s) trs
           = accepted (fst (snd (feed lib cfg env i trs s))) @ rest
         \<and> (snd (snd (snd (feed lib cfg env i trs s))) = None \<longrightarrow> rest = [])"
proof (induction trs arbitrary: s i)
  case Nil
  then show ?case by (simp add: accepted_def)
next
  case (Cons tr trs)
  show ?case
  proof (cases "extract_ts lib tr \<noteq> 0 \<and> extract_ts lib tr \<le> last_trade_ts s")
    case True
    show ?thesis
      unfolding feed_skip [where env=env and i=i, OF True] watermark_filter_skip [OF True]
      by (rule Cons.IH)
  next
    case False
    let ?r = "handle_trade lib cfg (fst (env i)) (snd (env i)) tr s"
    have acc: "is_accepted (snd ?r) = is_dict tr"
      by (rule handle_trade_fed(1) [OF False])
    have wm: "last_trade_ts (fst ?r)
              = (if is_dict tr \<and> extract_ts lib tr \<noteq> 0 then extract_ts lib tr else last_trade_ts s)"
      by (rule handle_trade_fed(2) [OF False])
    have wf: "watermark_filter lib (last_trade_ts s) (tr # trs)
              = (if is_dict tr then [tr] else []) @ watermark_filter lib (last_trade_ts (fst ?r)) trs"
      unfolding wm by (rule watermark_filter_step [OF False])
    from Cons.IH [of "fst ?r" "Suc i"] obtain rest where
      both: "watermark_filter lib (last_trade_ts (fst ?r)) trs
             = accepted (fst (snd (feed lib cfg env (Suc i) trs (fst ?r)))) @ rest
           \<and> (snd (snd (snd (feed lib cfg env (Suc i) trs (fst ?r)))) = None \<longrightarrow> rest = [])" ..
    note rest = both [THEN conjunct1] and fin = both [THEN conjunct2]
    show ?thesis
    proof (cases "raises (snd ?r)")
      case None
      show ?thesis
        unfolding feed_cont [where env=env and i=i, OF False None] wf
        using rest fin acc by (simp add: accepted_Cons)
    next
      case (Some e)
      show ?thesis
        unfolding feed_raise [where env=env and i=i, OF False Some] wf
        using acc by (simp add: accepted_Cons accepted_def)
    qed
  qed
qed

lemma extract_ts_trade_at: "extract_ts lib (trade_at t) = t"
  by (simp add: trade_at_def extract_ts_def ts_field_def bind_exn_def)

lemma is_dict_trade_at: "is_dict (trade_at t)"
  by (simp add: trade_at_def)

lemma sorted_example:
  "sort_key (extract_ts lib) [trade_at 30, trade_at 10, trade_at 20] = [trade_at 10, trade_at 20, trade_at 30]"
  by (simp add: extract_ts_trade_at)

lemma filter_example:
  "watermark_filter lib 15 [trade_at 10, trade_at 20, trade_at 30] = [trade_at 20, trade_at 30]"
  by (simp add: extract_ts_trade_at is_dict_trade_at Let_def)

text \<open>
  C6, as stated, fails in its "only records whose timestamp exceeds the Watermark": the
  loop's guard is \<open>if ts and ts <= last_trade_ts\<close>, so a record without a usable
  timestamp (extracted timestamp 0) is fed and accepted whatever the watermark is. With
  the watermark at 15, a polled record with a price and no timestamp is accepted.
\<close>

theorem untimestamped_record_accepted:
  "accepted (fst (snd (poll_pass no_parse llm_cfg idle_env (PList [untimed_trade]) (buffer_at 15))))
     = [untimed_trade]
   \<and> extract_ts no_parse untimed_trade = 0
   \<and> \<not> last_trade_ts (buffer_at 15) < extract_ts no_parse untimed_trade"
proof -
  have ts: "extract_ts no_parse untimed_trade = 0"
    by (simp add: untimed_trade_def extract_ts_def ts_field_def bind_exn_def)
  have px: "extract_price no_parse untimed_trade = Inr (Finite 1)"
    by (simp add: untimed_trade_def extract_price_def price_field_def bind_exn_def)
  have h: "handle_trade no_parse llm_cfg (Finite 0) (RequestException ''down'') untimed_trade (buffer_at 15)
           = (\<lparr>recent_trades = [untimed_trade], last_trade_ts = 15, last_activity = Finite 0\<rparr>,
              Appended NoTrigger)"
    by (simp add: handle_trade_def ts px buffer_at_def) (simp add: untimed_trade_def)
  have "poll_pass no_parse llm_cfg idle_env (PList [untimed_trade]) (buffer_at 15)
        = (\<lparr>recent_trades = [untimed_trade], last_trade_ts = 15, last_activity = Finite 0\<rparr>,
           [(untimed_trade, Appended NoTrigger)], 1, None)"
    by (simp add: poll_pass_def extract_candidates_def ts idle_env_def h raises_def)
  then show ?thesis by (simp add: accepted_def is_accepted_def ts buffer_at_def)
qed

text \<open>
  C6, amended: for every polled response the records handed to \<open>handle_trade\<close> are in
  ascending order of their extracted timestamp; the accepted ones are, in that order, an
  initial part of the dict records whose timestamp is zero or exceeds the watermark as it
  stands when they are fed (\<open>watermark_filter\<close>), and all of them when no exception ends
  the pass early. For the batch with timestamps 30, 10, 20 and watermark 15, a pass that
  is not cut short accepts exactly the records 20 and 30, in that order.
\<close>

theorem poll_pass_accepts_new_records:
  "sorted (map (extract_ts lib) (map fst (fst (snd (poll_pass lib cfg env resp s)))))
   \<and> (\<exists>rest. watermark_filter lib (last_trade_ts s)
                (sort_key (extract_ts lib) (extract_candidates resp))
              = accepted (fst (snd (poll_pass lib cfg env resp s))) @ rest)
   \<and> (snd (snd (snd (poll_pass lib cfg env resp s))) = None \<longrightarrow>
        accepted (fst (snd (poll_pass lib cfg env resp s)))
          = watermark_filter lib (last_trade_ts s)
              (sort_key (extract_ts lib) (extract_candidates resp)))
   \<and> (last_trade_ts s = 15
        \<and> snd (snd (snd (poll_pass lib cfg env (PList [trade_at 30, trade_at 10, trade_at 20]) s))) = None
        \<longrightarrow> accepted (fst (snd (poll_pass lib cfg env (PList [trade_at 30, trade_at 10, trade_at 20]) s)))
              = [trade_at 20, trade_at 30])"
proof -
  let ?cs = "sort_key (extract_ts lib) (extract_candidates resp)"
  have pc: "poll_pass lib cfg env resp s = feed lib cfg env 0 ?cs s"
    by (simp add: poll_pass_def)
  have a: "sorted (map (extract_ts lib) (map fst (fst (snd (poll_pass lib cfg env resp s)))))"
    unfolding pc
    by (rule feed_fed_sorted [where f="extract_ts lib" and env=env and i=0, THEN conjunct2]) simp
  from feed_accepted_prefix [where lib=lib and s=s and trs="?cs" and cfg=cfg and env=env and i=0]
  obtain rest where
    both: "watermark_filter lib (last_trade_ts s) ?cs = accepted (fst (snd (feed lib cfg env 0 ?cs s))) @ rest
         \<and> (snd (snd (snd (feed lib cfg env 0 ?cs s))) = None \<longrightarrow> rest = [])" ..
  note r = both [THEN conjunct1] and f = both [THEN conjunct2]
  have b: "\<exists>rest. watermark_filter lib (last_trade_ts s) ?cs
              = accepted (fst (snd (poll_pass lib cfg env resp s))) @ rest"
    unfolding pc using r by (rule exI)
  have c: "snd (snd (snd (poll_pass lib cfg env resp s))) = None \<longrightarrow>
        accepted (fst (snd (poll_pass lib cfg env resp s))) = watermark_filter lib (last_trade_ts s) ?cs"
    unfolding pc
  proof
    assume "snd (snd (snd (feed lib cfg env 0 ?cs s))) = None"
    with f have "rest = []" by (rule mp)
    with r show "accepted (fst (snd (feed lib cfg env 0 ?cs s))) = watermark_filter lib (last_trade_ts s) ?cs"
      by simp
  qed
  let ?ex = "[trade_at 10, trade_at 20, trade_at 30]"
  from feed_accepted_prefix [where lib=lib and s=s and trs="?ex" and cfg=cfg and env=env and i=0]
  obtain rest' where
    both': "watermark_filter lib (last_trade_ts s) ?ex = accepted (fst (snd (feed lib cfg env 0 ?ex s))) @ rest'
         \<and> (snd (snd (snd (feed lib cfg env 0 ?ex s))) = None \<longrightarrow> rest' = [])" ..
  note r' = both' [THEN conjunct1] and f' = both' [THEN conjunct2]
  have pp: "poll_pass lib cfg env (PList [trade_at 30, trade_at 10, trade_at 20]) s = feed lib cfg env 0 ?ex s"
  proof -
    have ec: "extract_candidates (PList [trade_at 30, trade_at 10, trade_at 20])
              = [trade_at 30, trade_at 10, trade_at 20]"
      by (simp add: extract_candidates_def)
    show ?thesis unfolding poll_pass_def Let_def ec sorted_example by (rule refl)
  qed
  have d: "last_trade_ts s = 15
        \<and> snd (snd (snd (poll_pass lib cfg env (PList [trade_at 30, trade_at 10, trade_at 20]) s))) = None
        \<longrightarrow> accepted (fst (snd (poll_pass lib cfg env (PList [trade_at 30, trade_at 10, trade_at 20]) s)))
              = [trade_at 20, trade_at 30]"
    unfolding pp
  proof
    assume h: "last_trade_ts s = 15 \<and> snd (snd (snd (feed lib cfg env 0 ?ex s))) = None"
    from h have w: "last_trade_ts s = 15" by (rule conjunct1)
    from h have n: "snd (snd (snd (feed lib cfg env 0 ?ex s))) = None" by (rule conjunct2)
    from f' n have e: "rest' = []" by (rule mp)
    have "accepted (fst (snd (feed lib cfg env 0 ?ex s))) = watermark_filter lib 15 ?ex"
      using r' unfolding e w by simp
    then show "accepted (fst (snd (feed lib cfg env 0 ?ex s))) = [trade_at 20, trade_at 30]"
      by (simp only: filter_example)
  qed
  show ?thesis by (rule conjI [OF a conjI [OF b conjI [OF c d]]])
qed

theorem poll_pass_accepts_new_records_witness:
  "last_trade_ts (buffer_at 15) = 15
   \<and> snd (snd (snd (poll_pass no_parse llm_cfg idle_env
           (PList [trade_at 30, trade_at 10, trade_at 20]) (buffer_at 15)))) = None
   \<and> accepted (fst (snd (poll_pass no_parse llm_cfg idle_env
           (PList [trade_at 30, trade_at 10, trade_at 20]) (buffer_at 15))))
       = [trade_at 20, trade_at 30]"
proof -
  let ?batch = "PList [trade_at 30, trade_at 10, trade_at 20]"
  have w: "last_trade_ts (buffer_at 15) = 15" by (simp add: buffer_at_def)
  have px: "extract_price no_parse (trade_at t) = Inr (Finite 1)" for t
    by (simp add: trade_at_def extract_price_def price_field_def bind_exn_def)
  have h20: "handle_trade no_parse llm_cfg (Finite 0) (RequestException ''down'') (trade_at 20) (buffer_at 15)
           = (\<lparr>recent_trades = [trade_at 20], last_trade_ts = 20, last_activity = Finite 0\<rparr>,
              Appended NoTrigger)"
    by (simp add: handle_trade_def extract_ts_trade_at px buffer_at_def is_dict_trade_at)
  have h30: "handle_trade no_parse llm_cfg (Finite 0) (RequestException ''down'') (trade_at 30)
              \<lparr>recent_trades = [trade_at 20], last_trade_ts = 20, last_activity = Finite 0\<rparr>
           = (\<lparr>recent_trades = [trade_at 20, trade_at 30], last_trade_ts = 30, last_activity = Finite 0\<rparr>,
              Appended NoTrigger)"
    by (simp add: handle_trade_def extract_ts_trade_at px is_dict_trade_at)
  have pp: "poll_pass no_parse llm_cfg idle_env ?batch (buffer_at 15)
            = feed no_parse llm_cfg idle_env 0 [trade_at 10, trade_at 20, trade_at 30] (buffer_at 15)"
  proof -
    have ec: "extract_candidates ?batch = [trade_at 30, trade_at 10, trade_at 20]"
      by (simp add: extract_candidates_def)
    show ?thesis unfolding poll_pass_def Let_def ec sorted_example by (rule refl)
  qed
  have n: "snd (snd (snd (poll_pass no_parse llm_cfg idle_env ?batch (buffer_at 15)))) = None"
    unfolding pp by (simp add: extract_ts_trade_at w idle_env_def h20 h30 raises_def)
  from poll_pass_accepts_new_records [of no_parse llm_cfg idle_env ?batch "buffer_at 15"]
  have "last_trade_ts (buffer_at 15) = 15
        \<and> snd (snd (snd (poll_pass no_parse llm_cfg idle_env ?batch (buffer_at 15)))) = None
        \<longrightarrow> accepted (fst (snd (poll_pass no_parse llm_cfg idle_env ?batch (buffer_at 15))))
              = [trade_at 20, trade_at 30]"
    by (elim conjE)
  with w n have "accepted (fst (snd (poll_pass no_parse llm_cfg idle_env ?batch (buffer_at 15))))
              = [trade_at 20, trade_at 30]"
    by simp
  with w n show ?thesis by (intro conjI)
qed

section \<open>The sizing engine\<close>

text \<open>Evaluating the double rounding on numerals.\<close>

lemma floor_rat_numeral: "\<lfloor>(numeral a :: rat) / numeral b\<rfloor> = numeral a div numeral b"
  by (metis floor_divide_of_int_eq of_int_numeral)

lemma ceiling_rat_numeral: "\<lceil>(numeral a :: rat) / numeral b\<rceil> = - ((- numeral a) div numeral b)"
proof -
  have "\<lfloor>- (numeral a :: rat) / numeral b\<rfloor> = (- numeral a) div numeral b"
    by (metis floor_divide_of_int_eq of_int_numeral of_int_minus)
  then show ?thesis by (simp add: ceiling_def)
qed

lemma bitlen_numeral_eq: "bitlen (numeral k) = bitlen (numeral k div 2) + 1"
  by (subst compute_bitlen) simp

lemma bitlen_1: "bitlen 1 = 1"
  by (subst compute_bitlen) simp

lemmas float_eval = round_double_def floor_log2_def pow2_def round_half_even_def Let_def
  floor_rat_numeral ceiling_rat_numeral bitlen_numeral_eq bitlen_1

lemma double_0_0002: "round_double (2 / 10000) = Finite (7378697629483821 / 36893488147419103232)"
  by (simp add: float_eval)

lemma double_1_5000: "round_double (1 / 5000) = Finite (7378697629483821 / 36893488147419103232)"
  by (simp add: float_eval)

lemma double_0_000001: "round_double (1 / 1000000) = Finite (4722366482869645 / 4722366482869645213696)"
  by (simp add: float_eval)

lemma double_0_0000005: "round_double (5 / 10000000) = Finite (4722366482869645 / 9444732965739290427392)"
  by (simp add: float_eval)

lemma fdiv_10_50000: "fdiv (Finite 10) (Finite 50000) = Inr (Finite (7378697629483821 / 36893488147419103232))"
  by (simp add: float_eval)

lemma round6_0_0002:
  "round6 (Finite (7378697629483821 / 36893488147419103232)) = Finite (7378697629483821 / 36893488147419103232)"
  by (simp add: float_eval)

lemma format_quantity_0_0002:
  "format_quantity (Finite (7378697629483821 / 36893488147419103232))
     = Finite (7378697629483821 / 36893488147419103232)"
  unfolding format_quantity_def Let_def fmax0_def
  by (simp add: round6_0_0002 double_0_000001 del: round6.simps)

lemma fdiv_tiny: "fdiv (Finite (4722366482869645 / 9444732965739290427392)) (Finite 1)
                  = Inr (Finite (4722366482869645 / 9444732965739290427392))"
  by (simp add: float_eval)

lemma round6_tiny: "round6 (Finite (4722366482869645 / 9444732965739290427392)) = Finite 0"
  by (simp add: float_eval)

lemma format_quantity_tiny:
  "format_quantity (Finite (4722366482869645 / 9444732965739290427392)) = Finite 0"
  unfolding format_quantity_def Let_def fmax0_def
  by (simp add: round6_tiny double_0_000001 del: round6.simps)

lemma flt_not_fle: "flt a b \<Longrightarrow> \<not> fle b a"
  by (cases a; cases b) (auto simp: fle_def)

lemma fdiv_positive: "flt (Finite 0) px \<Longrightarrow> \<exists>raw. fdiv q px = Inr raw"
  by (cases px; cases q) auto

lemma brace_span_hold: "brace_span (hold_text @ [CHR 0x0A]) = Some hold_text"
  by (simp add: brace_span_def hold_text_def)

lemma response_text_hold: "response_text hold_body = Inr (hold_text @ [CHR 0x0A])"
  by (simp add: response_text_def bind_exn_def hold_body_def)

text \<open>
  C5: \<open>decide_order\<close> yields no order for a \<open>flat\<close> decision at any price, and none for
  any decision when \<open>price <= 0\<close>; with budget 10 and price 50000 a \<open>long\<close> decision
  yields a MARKET BUY order whose quantity is the double 0.0002; with budget 0.0000005
  and price 1 the formatted quantity is 0.0, below the minimum, and no order is produced.
\<close>

theorem decide_order_cases:
  "(action d = PStr ''flat'' \<longrightarrow> decide_order eng px d = Inr None)
   \<and> (fle px (Finite 0) \<longrightarrow> decide_order eng px d = Inr None)
   \<and> (quote_amount eng = Finite 10 \<and> action d = PStr ''long'' \<longrightarrow>
        decide_order eng (Finite 50000) d
          = Inr (Some \<lparr>ord_symbol = eng_symbol eng, ord_side = ''BUY'', ord_type = ''MARKET'',
                        ord_quantity = round_double (2 / 10000), ord_price = None\<rparr>))
   \<and> (quote_amount eng = round_double (5 / 10000000) \<longrightarrow>
        fdiv (quote_amount eng) (Finite 1) = Inr (round_double (5 / 10000000))
        \<and> round6 (fmax0 (round_double (5 / 10000000))) = Finite 0
        \<and> flt (Finite 0) (round_double (1 / 1000000))
        \<and> format_quantity (round_double (5 / 10000000)) = Finite 0
        \<and> decide_order eng (Finite 1) d = Inr None)"
proof -
  have a: "action d = PStr ''flat'' \<longrightarrow> decide_order eng px d = Inr None"
    by (simp add: decide_order_def)
  have b: "fle px (Finite 0) \<longrightarrow> decide_order eng px d = Inr None"
    by (simp add: decide_order_def)
  have c: "quote_amount eng = Finite 10 \<and> action d = PStr ''long'' \<longrightarrow>
        decide_order eng (Finite 50000) d
          = Inr (Some \<lparr>ord_symbol = eng_symbol eng, ord_side = ''BUY'', ord_type = ''MARKET'',
                        ord_quantity = round_double (2 / 10000), ord_price = None\<rparr>)"
    unfolding double_0_0002
    by (simp add: decide_order_def fdiv_10_50000 format_quantity_0_0002 fle_def del: fdiv.simps)
  have e: "quote_amount eng = round_double (5 / 10000000) \<longrightarrow>
        fdiv (quote_amount eng) (Finite 1) = Inr (round_double (5 / 10000000))
        \<and> round6 (fmax0 (round_double (5 / 10000000))) = Finite 0
        \<and> flt (Finite 0) (round_double (1 / 1000000))
        \<and> format_quantity (round_double (5 / 10000000)) = Finite 0
        \<and> decide_order eng (Finite 1) d = Inr None"
    unfolding double_0_0000005 double_0_000001
    by (simp add: decide_order_def fdiv_tiny format_quantity_tiny round6_tiny fmax0_def fle_def
          del: fdiv.simps round6.simps)
  show ?thesis by (rule conjI [OF a conjI [OF b conjI [OF c e]]])
qed

theorem decide_order_cases_witness:
  "quote_amount btc_engine = Finite 10
   \<and> action (fallback ''x''\<lparr>action := PStr ''long''\<rparr>) = PStr ''long''
   \<and> decide_order btc_engine (Finite 50000) (fallback ''x''\<lparr>action := PStr ''long''\<rparr>)
       = Inr (Some \<lparr>ord_symbol = ''BTCUSDT'', ord_side = ''BUY'', ord_type = ''MARKET'',
                     ord_quantity = Finite (7378697629483821 / 36893488147419103232), ord_price = None\<rparr>)
   \<and> action (fallback ''x'') = PStr ''flat''
   \<and> decide_order btc_engine (Finite 50000) (fallback ''x'') = Inr None
   \<and> fle (Finite 0) (Finite 0)
   \<and> decide_order btc_engine (Finite 0) (fallback ''x''\<lparr>action := PStr ''long''\<rparr>) = Inr None
   \<and> quote_amount dust_engine = round_double (5 / 10000000)
   \<and> decide_order dust_engine (Finite 1) (fallback ''x''\<lparr>action := PStr ''long''\<rparr>) = Inr None"
proof -
  let ?long = "fallback ''x''\<lparr>action := PStr ''long''\<rparr>"
  have q: "quote_amount btc_engine = Finite 10" by (simp add: btc_engine_def)
  have l: "action ?long = PStr ''long''" by simp
  have f: "action (fallback ''x'') = PStr ''flat''" by (simp add: fallback_def)
  have z: "fle (Finite 0) (Finite 0)" by (simp add: fle_def)
  have dq: "quote_amount dust_engine = round_double (5 / 10000000)" by (simp only: dust_engine_def TradingEngine.simps)
  from decide_order_cases [of ?long btc_engine "Finite 50000"]
  have "quote_amount btc_engine = Finite 10 \<and> action ?long = PStr ''long'' \<longrightarrow>
        decide_order btc_engine (Finite 50000) ?long
          = Inr (Some \<lparr>ord_symbol = eng_symbol btc_engine, ord_side = ''BUY'', ord_type = ''MARKET'',
                        ord_quantity = round_double (2 / 10000), ord_price = None\<rparr>)"
    by (elim conjE)
  with q l have r1: "decide_order btc_engine (Finite 50000) ?long
          = Inr (Some \<lparr>ord_symbol = ''BTCUSDT'', ord_side = ''BUY'', ord_type = ''MARKET'',
                     ord_quantity = Finite (7378697629483821 / 36893488147419103232), ord_price = None\<rparr>)"
    by (simp add: double_1_5000 btc_engine_def)
  from decide_order_cases [of "fallback ''x''" btc_engine "Finite 50000"]
  have "action (fallback ''x'') = PStr ''flat'' \<longrightarrow>
        decide_order btc_engine (Finite 50000) (fallback ''x'') = Inr None"
    by (elim conjE)
  with f have r2: "decide_order btc_engine (Finite 50000) (fallback ''x'') = Inr None"
    by (rule rev_mp)
  from decide_order_cases [of ?long btc_engine "Finite 0"]
  have "fle (Finite 0) (Finite 0) \<longrightarrow> decide_order btc_engine (Finite 0) ?long = Inr None"
    by (elim conjE)
  with z have r3: "decide_order btc_engine (Finite 0) ?long = Inr None"
    by (rule rev_mp)
  from decide_order_cases [of ?long dust_engine "Finite 1"]
  have "quote_amount dust_engine = round_double (5 / 10000000) \<longrightarrow>
        fdiv (quote_amount dust_engine) (Finite 1) = Inr (round_double (5 / 10000000))
        \<and> round6 (fmax0 (round_double (5 / 10000000))) = Finite 0
        \<and> flt (Finite 0) (round_double (1 / 1000000))
        \<and> format_quantity (round_double (5 / 10000000)) = Finite 0
        \<and> decide_order dust_engine (Finite 1) ?long = Inr None"
    by (elim conjE)
  from this dq have "fdiv (quote_amount dust_engine) (Finite 1) = Inr (round_double (5 / 10000000))
        \<and> round6 (fmax0 (round_double (5 / 10000000))) = Finite 0
        \<and> flt (Finite 0) (round_double (1 / 1000000))
        \<and> format_quantity (round_double (5 / 10000000)) = Finite 0
        \<and> decide_order dust_engine (Finite 1) ?long = Inr None"
    by (rule mp)
  then have r4: "decide_order dust_engine (Finite 1) ?long = Inr None"
    by (elim conjE)
  show ?thesis
    by (rule conjI [OF q conjI [OF l conjI [OF r1 conjI [OF f conjI [OF r2 conjI [OF z conjI [OF r3 conjI [OF dq r4]]]]]]]])
qed

text \<open>
  C10: the decision's action is whatever the parsed JSON object holds (\<open>LLMDecision(**obj)\<close>
  validates nothing), and \<open>decide_order\<close> compares it with \<open>"flat"\<close> and \<open>"long"\<close> only:
  at a positive price and with a budget whose formatted quantity is positive, the result
  is no order exactly for \<open>"flat"\<close>, a BUY exactly for \<open>"long"\<close>, and a SELL for every other
  action, such as \<open>"hold"\<close> or \<open>"buy"\<close> at budget 10 and price 50000.
\<close>

theorem unvalidated_action_sells:
  "mk_decision (PDict [(''action'', a), (''confidence'', c), (''reason'', r)])
     = Some \<lparr>action = a, confidence = c, reason = r, stop_loss = PNone, take_profit = PNone\<rparr>
   \<and> (flt (Finite 0) px \<longrightarrow>
        (\<exists>raw. fdiv (quote_amount eng) px = Inr raw
           \<and> (flt (Finite 0) (format_quantity raw) \<longrightarrow>
                decide_order eng px d
                  = Inr (if action d = PStr ''flat'' then None
                         else Some \<lparr>ord_symbol = eng_symbol eng,
                                     ord_side = (if action d = PStr ''long'' then ''BUY'' else ''SELL''),
                                     ord_type = ''MARKET'', ord_quantity = format_quantity raw,
                                     ord_price = None\<rparr>))))
   \<and> (action d = PStr ''hold'' \<or> action d = PStr ''buy'' \<longrightarrow>
        decide_order btc_engine (Finite 50000) d
          = Inr (Some \<lparr>ord_symbol = ''BTCUSDT'', ord_side = ''SELL'', ord_type = ''MARKET'',
                        ord_quantity = round_double (2 / 10000), ord_price = None\<rparr>))"
proof -
  have a: "mk_decision (PDict [(''action'', a), (''confidence'', c), (''reason'', r)])
     = Some \<lparr>action = a, confidence = c, reason = r, stop_loss = PNone, take_profit = PNone\<rparr>"
    by (simp add: mk_decision_def)
  have b: "flt (Finite 0) px \<longrightarrow>
        (\<exists>raw. fdiv (quote_amount eng) px = Inr raw
           \<and> (flt (Finite 0) (format_quantity raw) \<longrightarrow>
                decide_order eng px d
                  = Inr (if action d = PStr ''flat'' then None
                         else Some \<lparr>ord_symbol = eng_symbol eng,
                                     ord_side = (if action d = PStr ''long'' then ''BUY'' else ''SELL''),
                                     ord_type = ''MARKET'', ord_quantity = format_quantity raw,
                                     ord_price = None\<rparr>)))"
  proof
    assume p: "flt (Finite 0) px"
    then obtain raw where raw: "fdiv (quote_amount eng) px = Inr raw"
      using fdiv_positive by blast
    have np: "\<not> fle px (Finite 0)" using p by (rule flt_not_fle)
    have "flt (Finite 0) (format_quantity raw) \<longrightarrow>
                decide_order eng px d
                  = Inr (if action d = PStr ''flat'' then None
                         else Some \<lparr>ord_symbol = eng_symbol eng,
                                     ord_side = (if action d = PStr ''long'' then ''BUY'' else ''SELL''),
                                     ord_type = ''MARKET'', ord_quantity = format_quantity raw,
                                     ord_price = None\<rparr>)"
    proof
      assume "flt (Finite 0) (format_quantity raw)"
      then have nq: "\<not> fle (format_quantity raw) (Finite 0)" by (rule flt_not_fle)
      show "decide_order eng px d
                  = Inr (if action d = PStr ''flat'' then None
                         else Some \<lparr>ord_symbol = eng_symbol eng,
                                     ord_side = (if action d = PStr ''long'' then ''BUY'' else ''SELL''),
                                     ord_type = ''MARKET'', ord_quantity = format_quantity raw,
                                     ord_price = None\<rparr>)"
        using np nq raw by (simp add: decide_order_def Let_def del: fdiv.simps)
    qed
    with raw show "\<exists>raw. fdiv (quote_amount eng) px = Inr raw
           \<and> (flt (Finite 0) (format_quantity raw) \<longrightarrow>
                decide_order eng px d
                  = Inr (if action d = PStr ''flat'' then None
                         else Some \<lparr>ord_symbol = eng_symbol eng,
                                     ord_side = (if action d = PStr ''long'' then ''BUY'' else ''SELL''),
                                     ord_type = ''MARKET'', ord_quantity = format_quantity raw,
                                     ord_price = None\<rparr>))"
      by (intro exI conjI)
  qed
  have c: "action d = PStr ''hold'' \<or> action d = PStr ''buy'' \<longrightarrow>
        decide_order btc_engine (Finite 50000) d
          = Inr (Some \<lparr>ord_symbol = ''BTCUSDT'', ord_side = ''SELL'', ord_type = ''MARKET'',
                        ord_quantity = round_double (2 / 10000), ord_price = None\<rparr>)"
    unfolding double_0_0002
    by (auto simp: decide_order_def btc_engine_def fdiv_10_50000 format_quantity_0_0002 fle_def
          simp del: fdiv.simps)
  show ?thesis by (rule conjI [OF a conjI [OF b c]])
qed

theorem unvalidated_action_sells_witness:
  "analyze hold_lib (JsonBody hold_body) live_input
     = Inr \<lparr>action = PStr ''hold'', confidence = PFloat (round_double (7 / 10)),
            reason = PStr ''unclear'', stop_loss = PNone, take_profit = PNone\<rparr>
   \<and> flt (Finite 0) (Finite 50000)
   \<and> flt (Finite 0) (format_quantity (Finite (7378697629483821 / 36893488147419103232)))
   \<and> decide_order btc_engine (Finite 50000)
        \<lparr>action = PStr ''hold'', confidence = PFloat (round_double (7 / 10)),
          reason = PStr ''unclear'', stop_loss = PNone, take_profit = PNone\<rparr>
       = Inr (Some \<lparr>ord_symbol = ''BTCUSDT'', ord_side = ''SELL'', ord_type = ''MARKET'',
                     ord_quantity = Finite (7378697629483821 / 36893488147419103232),
                     ord_price = None\<rparr>)"
proof -
  let ?d = "\<lparr>action = PStr ''hold'', confidence = PFloat (round_double (7 / 10)),
            reason = PStr ''unclear'', stop_loss = PNone, take_profit = PNone\<rparr>"
  let ?q = "Finite (7378697629483821 / 36893488147419103232)"
  note th = unvalidated_action_sells [of "PStr ''hold''" "PFloat (round_double (7 / 10))" "PStr ''unclear''"
      "Finite 50000" btc_engine ?d]
  from th have mk: "mk_decision (PDict [(''action'', PStr ''hold''),
        (''confidence'', PFloat (round_double (7 / 10))), (''reason'', PStr ''unclear'')]) = Some ?d"
    by (elim conjE)
  then have mk': "mk_decision hold_object = Some ?d" by (simp only: hold_object_def)
  have js: "json_loads hold_lib hold_text = Some hold_object" by (simp add: hold_lib_def)
  have nz: "hold_text @ [CHR 0x0A] \<noteq> []" by simp
  have pd: "parse_decision hold_lib (hold_text @ [CHR 0x0A]) = ?d"
    unfolding parse_decision_def brace_span_hold option.case js mk' by (rule refl)
  have an: "analyze hold_lib (JsonBody hold_body) live_input = Inr ?d"
    unfolding analyze_def remote.case response_text_hold bind_exn_def sum.case
    using nz pd by simp
  have p: "flt (Finite 0) (Finite 50000)" by simp
  have fq: "flt (Finite 0) (format_quantity ?q)"
    unfolding format_quantity_0_0002 by simp
  from th have "flt (Finite 0) (Finite 50000) \<longrightarrow>
        (\<exists>raw. fdiv (quote_amount btc_engine) (Finite 50000) = Inr raw
           \<and> (flt (Finite 0) (format_quantity raw) \<longrightarrow>
                decide_order btc_engine (Finite 50000) ?d
                  = Inr (if action ?d = PStr ''flat'' then None
                         else Some \<lparr>ord_symbol = eng_symbol btc_engine,
                                     ord_side = (if action ?d = PStr ''long'' then ''BUY'' else ''SELL''),
                                     ord_type = ''MARKET'', ord_quantity = format_quantity raw,
                                     ord_price = None\<rparr>)))"
    by (elim conjE)
  from this p have "\<exists>raw. fdiv (quote_amount btc_engine) (Finite 50000) = Inr raw
           \<and> (flt (Finite 0) (format_quantity raw) \<longrightarrow>
                decide_order btc_engine (Finite 50000) ?d
                  = Inr (if action ?d = PStr ''flat'' then None
                         else Some \<lparr>ord_symbol = eng_symbol btc_engine,
                                     ord_side = (if action ?d = PStr ''long'' then ''BUY'' else ''SELL''),
                                     ord_type = ''MARKET'', ord_quantity = format_quantity raw,
                                     ord_price = None\<rparr>))"
    by (rule mp)
  then obtain raw where both: "fdiv (quote_amount btc_engine) (Finite 50000) = Inr raw
           \<and> (flt (Finite 0) (format_quantity raw) \<longrightarrow>
                decide_order btc_engine (Finite 50000) ?d
                  = Inr (if action ?d = PStr ''flat'' then None
                         else Some \<lparr>ord_symbol = eng_symbol btc_engine,
                                     ord_side = (if action ?d = PStr ''long'' then ''BUY'' else ''SELL''),
                                     ord_type = ''MARKET'', ord_quantity = format_quantity raw,
                                     ord_price = None\<rparr>))" ..
  note raw = both [THEN conjunct1] and imp = both [THEN conjunct2]
  have "fdiv (quote_amount btc_engine) (Finite 50000) = Inr ?q"
    unfolding btc_engine_def by (simp add: fdiv_10_50000 del: fdiv.simps)
  with raw have e: "raw = ?q" by simp
  from imp fq have "decide_order btc_engine (Finite 50000) ?d
                  = Inr (if action ?d = PStr ''flat'' then None
                         else Some \<lparr>ord_symbol = eng_symbol btc_engine,
                                     ord_side = (if action ?d = PStr ''long'' then ''BUY'' else ''SELL''),
                                     ord_type = ''MARKET'', ord_quantity = format_quantity ?q,
                                     ord_price = None\<rparr>)"
    unfolding e by (rule mp)
  then have dec: "decide_order btc_engine (Finite 50000) ?d
       = Inr (Some \<lparr>ord_symbol = ''BTCUSDT'', ord_side = ''SELL'', ord_type = ''MARKET'',
                     ord_quantity = ?q, ord_price = None\<rparr>)"
    by (simp add: format_quantity_0_0002 btc_engine_def)
  show ?thesis by (rule conjI [OF an conjI [OF p conjI [OF fq dec]]])
qed

end
